theory Spec2Isabelle
  imports Main "HOL-Library.Word"
begin

section \<open>The command engine of an OSS proxy slave (ossp-slave.c)\<close>

text \<open>
  The development embeds \<^verbatim>\<open>ossp_slave_process_command\<close> of \<^verbatim>\<open>ossp-slave.c\<close>. The
  function receives one command from the command channel, validates it, stages the four
  static buffers, reads the payload, runs the registered action between the pre and post
  hooks and writes the reply.

  Everything the function calls is declared outside \<^verbatim>\<open>ossp-slave.c\<close>: the system call
  \<^verbatim>\<open>recvmsg\<close>, the helpers \<^verbatim>\<open>ensure_sbuf_size\<close>, \<^verbatim>\<open>read_fill\<close> and \<^verbatim>\<open>write_fill\<close>, the table
  \<^verbatim>\<open>ossp_arg_sizes\<close>, the magic numbers, and the three function pointers it is given. They
  are the fields of an environment record, each a function on a world \<open>'w\<close> of any type
  that returns its result and the next world. The world holds whatever these functions
  touch: the socket, the heap and the contents and sizes of the four static buffers, which
  \<^verbatim>\<open>ossp_slave_process_command\<close> itself never reads or writes. The model returns, besides the
  value the C function returns, the list of the calls it made, in order, each with its
  arguments and its result. The logging macro \<^verbatim>\<open>err\<close> has no effect on control flow and is
  left out. The descriptor \<^verbatim>\<open>cmd_fd\<close> is the same in every call and is part of the
  environment.
\<close>

subsection \<open>Constants of the platform\<close>

text \<open>The values of \<^verbatim>\<open>errno.h\<close> and \<^verbatim>\<open>sys/socket.h\<close> on Linux.\<close>

definition EIO :: int where "EIO = 5"
definition ENOMEM :: int where "ENOMEM = 12"
definition EINVAL :: int where "EINVAL = 22"
definition SOL_SOCKET :: int where "SOL_SOCKET = 1"
definition SCM_RIGHTS :: int where "SCM_RIGHTS = 1"

subsection \<open>Data\<close>

text \<open>
  Modelled from the spec: the layout of \<^verbatim>\<open>struct ossp_cmd\<close> and \<^verbatim>\<open>struct ossp_reply\<close>,
  which \<^verbatim>\<open>ossp.h\<close> declares. The request header is four unsigned 32-bit fields, the reply
  header is a 32-bit magic, a signed result and a 32-bit \<open>dout_size\<close>.

  The locals of type \<^verbatim>\<open>size_t\<close> are natural numbers: the function copies them, compares
  them with zero and passes them on, and does no arithmetic on them; reading a 32-bit field
  into one is \<open>unat\<close>. The result code \<open>ret\<close>, an \<^verbatim>\<open>ssize_t\<close>, is an integer: the function
  compares it with zero and copies it. The field \<open>result\<close> holds a 32-bit \<^verbatim>\<open>int\<close>, given
  as the integer it stands for.
\<close>

record ossp_cmd =
  magic :: "32 word"
  opcode :: "32 word"
  din_size :: "32 word"
  dout_size :: "32 word"

record ossp_reply =
  r_magic :: "32 word"
  r_result :: int
  r_dout_size :: "32 word"

text \<open>
  Modelled from the spec: \<^verbatim>\<open>sizeof(struct ossp_cmd)\<close> and \<^verbatim>\<open>sizeof(struct ossp_reply)\<close> for
  the layout above.
\<close>

definition sizeof_cmd :: nat where "sizeof_cmd = 16"
definition sizeof_reply :: nat where "sizeof_reply = 12"

text \<open>
  Modelled from the spec: one entry of the table \<^verbatim>\<open>ossp_arg_sizes\<close> (declared in
  \<^verbatim>\<open>ossp.h\<close>): the sizes of the fixed argument in and out, and whether the opcode carries
  a descriptor.
\<close>

record ossp_arg_size =
  carg_size :: nat
  rarg_size :: nat
  has_fd :: bool

text \<open>A control message as the loop over \<^verbatim>\<open>CMSG_FIRSTHDR\<close>/\<^verbatim>\<open>CMSG_NXTHDR\<close> reads it:
  level, type and the \<^verbatim>\<open>int\<close> at \<^verbatim>\<open>CMSG_DATA\<close>.\<close>

record cmsghdr =
  cmsg_level :: int
  cmsg_type :: int
  cmsg_data :: int

text \<open>What one \<^verbatim>\<open>recvmsg\<close> leaves behind: its return value, \<^verbatim>\<open>errno\<close>, the bytes of
  \<^verbatim>\<open>cmd\<close> and the control messages in \<^verbatim>\<open>cmsg_buf\<close>.\<close>

record msg =
  m_ret :: int
  m_errno :: int
  m_cmd :: ossp_cmd
  m_cmsgs :: "cmsghdr list"

text \<open>The four static buffers, and a \<^verbatim>\<open>char *\<close> that is either \<^verbatim>\<open>NULL\<close> or the \<^verbatim>\<open>buf\<close> of
  one of them.\<close>

datatype sbuf = Carg_sbuf | Din_sbuf | Rarg_sbuf | Dout_sbuf

datatype ptr = Null | Buf sbuf

text \<open>The first argument of \<^verbatim>\<open>write_fill\<close>: the address of the local \<^verbatim>\<open>reply\<close> (with its
  value at the call) or one of the pointers above.\<close>

datatype wsrc = Reply ossp_reply | Ptr ptr

text \<open>One call made by the function, with its arguments and what it returned. For the
  action: opcode, carg, din, din_size, rarg, dout, the value of \<^verbatim>\<open>dout_size\<close> passed by
  reference, fd, the result, and the value of \<^verbatim>\<open>dout_size\<close> afterwards.\<close>

datatype event =
    Ev_recvmsg msg
  | Ev_ensure_sbuf_size sbuf nat int
  | Ev_read_fill ptr nat int
  | Ev_action_pre int
  | Ev_action "32 word" ptr ptr nat ptr ptr nat int int nat
  | Ev_action_post
  | Ev_write_fill wsrc nat int

type_synonym 'w action_fn =
  "32 word \<Rightarrow> ptr \<Rightarrow> ptr \<Rightarrow> nat \<Rightarrow> ptr \<Rightarrow> ptr \<Rightarrow> nat \<Rightarrow> int \<Rightarrow> 'w \<Rightarrow> (int \<times> nat) \<times> 'w"

record 'w env =
  OSSP_CMD_MAGIC :: "32 word"
  OSSP_REPLY_MAGIC :: "32 word"
  ossp_arg_sizes :: "ossp_arg_size list"
  recvmsg :: "'w \<Rightarrow> msg \<times> 'w"
  ensure_sbuf_size :: "sbuf \<Rightarrow> nat \<Rightarrow> 'w \<Rightarrow> int \<times> 'w"
  read_fill :: "ptr \<Rightarrow> nat \<Rightarrow> 'w \<Rightarrow> int \<times> 'w"
  write_fill :: "wsrc \<Rightarrow> nat \<Rightarrow> 'w \<Rightarrow> int \<times> 'w"
  action_fn_tbl :: "nat \<Rightarrow> 'w action_fn option"
  action_pre_fn :: "'w \<Rightarrow> int \<times> 'w"
  action_post_fn :: "'w \<Rightarrow> 'w"

text \<open>\<^verbatim>\<open>OSSP_NR_OPCODES\<close> is the number of entries of \<^verbatim>\<open>ossp_arg_sizes\<close>.\<close>

definition OSSP_NR_OPCODES :: "'w env \<Rightarrow> nat" where
  "OSSP_NR_OPCODES E = length (ossp_arg_sizes E)"

text \<open>The local variables that are live after the payload has been read (line 171).\<close>

record locals =
  v_cmd :: ossp_cmd
  v_fd :: int
  v_carg_size :: nat
  v_din_size :: nat
  v_rarg_size :: nat
  v_dout_size :: nat
  v_carg :: ptr
  v_din :: ptr
  v_rarg :: ptr
  v_dout :: ptr

subsection \<open>The function, stage by stage\<close>

text \<open>Lines 121-131: the loop over the control messages. \<open>fd\<close> starts at \<open>-1\<close>; a message
  of \<^verbatim>\<open>SOL_SOCKET\<close>/\<^verbatim>\<open>SCM_RIGHTS\<close> stores its descriptor, any other message ends the function
  (\<open>None\<close>).\<close>

fun scan_cmsgs :: "cmsghdr list \<Rightarrow> int \<Rightarrow> int option" where
  "scan_cmsgs [] fd = Some fd"
| "scan_cmsgs (c # cs) fd =
     (if cmsg_level c = SOL_SOCKET \<and> cmsg_type c = SCM_RIGHTS
      then scan_cmsgs cs (cmsg_data c)
      else None)"

text \<open>Lines 102-146: the checks on what \<^verbatim>\<open>recvmsg\<close> returned, in the order of the
  source. \<open>Inl\<close> is the value of an early \<^verbatim>\<open>return\<close>, \<open>Inr\<close> the descriptor after the loop.\<close>

definition validate :: "'w env \<Rightarrow> msg \<Rightarrow> int + int" where
  "validate E m =
     (if m_ret m = 0 then Inl 0
      else if m_ret m < 0 then Inl (- m_errno m)
      else if m_ret m \<noteq> int sizeof_cmd then Inl (- EINVAL)
      else if magic (m_cmd m) \<noteq> OSSP_CMD_MAGIC E then Inl (- EINVAL)
      else (case scan_cmsgs (m_cmsgs m) (- 1) of
              None \<Rightarrow> Inl (- EINVAL)
            | Some fd \<Rightarrow>
                if unat (opcode (m_cmd m)) \<ge> OSSP_NR_OPCODES E then Inl (- EINVAL)
                else if (fd \<ge> 0) \<noteq> has_fd (ossp_arg_sizes E ! unat (opcode (m_cmd m)))
                then Inl (- EINVAL)
                else Inr fd))"

text \<open>Lines 148-151: the calls of \<^verbatim>\<open>ensure_sbuf_size\<close> joined by \<^verbatim>\<open>||\<close>: the first call
  that returns nonzero ends the chain. The result is whether one failed.\<close>

fun ensure_sbufs :: "'w env \<Rightarrow> (sbuf \<times> nat) list \<Rightarrow> 'w \<Rightarrow> bool \<times> 'w \<times> event list" where
  "ensure_sbufs E [] w = (False, w, [])"
| "ensure_sbufs E ((b, n) # rest) w =
     (case ensure_sbuf_size E b n w of
        (rc, w1) \<Rightarrow>
          if rc \<noteq> 0 then (True, w1, [Ev_ensure_sbuf_size b n rc])
          else (case ensure_sbufs E rest w1 of
                  (failed, w2, tr) \<Rightarrow> (failed, w2, Ev_ensure_sbuf_size b n rc # tr)))"

text \<open>Lines 156-171: the two guarded calls of \<^verbatim>\<open>read_fill\<close> and the four pointers.
  \<open>Inl\<close> is an early \<^verbatim>\<open>return ret\<close>.\<close>

definition read_payload ::
  "'w env \<Rightarrow> nat \<Rightarrow> nat \<Rightarrow> 'w \<Rightarrow> (int \<times> 'w \<times> event list) + ('w \<times> event list)" where
  "read_payload E carg_sz din_sz w =
     (case (if carg_sz \<noteq> 0
            then (case read_fill E (Buf Carg_sbuf) carg_sz w of
                    (rc, w1) \<Rightarrow> (rc, w1, [Ev_read_fill (Buf Carg_sbuf) carg_sz rc]))
            else (0, w, [])) of
        (rc1, w1, tr1) \<Rightarrow>
          if rc1 < 0 then Inl (rc1, w1, tr1)
          else (case (if din_sz \<noteq> 0
                      then (case read_fill E (Buf Din_sbuf) din_sz w1 of
                              (rc, w2) \<Rightarrow> (rc, w2, [Ev_read_fill (Buf Din_sbuf) din_sz rc]))
                      else (0, w1, [])) of
                  (rc2, w2, tr2) \<Rightarrow>
                    if rc2 < 0 then Inl (rc2, w2, tr1 @ tr2)
                    else Inr (w2, tr1 @ tr2)))"

text \<open>Lines 101-171: everything before the action is looked up. \<open>Inl\<close> is an early
  return (value, world, calls), \<open>Inr\<close> the local variables at line 173.\<close>

definition prepare ::
  "'w env \<Rightarrow> 'w \<Rightarrow> (int \<times> 'w \<times> event list) + (locals \<times> 'w \<times> event list)" where
  "prepare E w =
     (case recvmsg E w of
        (m, w1) \<Rightarrow>
          (case validate E m of
             Inl rv \<Rightarrow> Inl (rv, w1, [Ev_recvmsg m])
           | Inr fd \<Rightarrow>
               let cmd = m_cmd m;
                   carg_sz = carg_size (ossp_arg_sizes E ! unat (opcode cmd));
                   din_sz = unat (din_size cmd);
                   rarg_sz = rarg_size (ossp_arg_sizes E ! unat (opcode cmd));
                   dout_sz = unat (dout_size cmd)
               in (case ensure_sbufs E [(Carg_sbuf, carg_sz), (Din_sbuf, din_sz),
                                        (Rarg_sbuf, rarg_sz), (Dout_sbuf, dout_sz)] w1 of
                     (failed, w2, tr2) \<Rightarrow>
                       if failed then Inl (- ENOMEM, w2, Ev_recvmsg m # tr2)
                       else (case read_payload E carg_sz din_sz w2 of
                               Inl (rv, w3, tr3) \<Rightarrow> Inl (rv, w3, Ev_recvmsg m # tr2 @ tr3)
                             | Inr (w3, tr3) \<Rightarrow>
                                 Inr (\<lparr>v_cmd = cmd, v_fd = fd,
                                       v_carg_size = carg_sz, v_din_size = din_sz,
                                       v_rarg_size = rarg_sz, v_dout_size = dout_sz,
                                       v_carg = (if carg_sz \<noteq> 0 then Buf Carg_sbuf else Null),
                                       v_din = (if din_sz \<noteq> 0 then Buf Din_sbuf else Null),
                                       v_rarg = (if rarg_sz \<noteq> 0 then Buf Rarg_sbuf else Null),
                                       v_dout = (if dout_sz \<noteq> 0 then Buf Dout_sbuf else Null)\<rparr>,
                                      w3, Ev_recvmsg m # tr2 @ tr3)))))"

text \<open>Lines 173-182: the action between its hooks. The result is \<open>ret\<close>, the value of
  \<open>dout_size\<close> afterwards, the world and the calls.\<close>

definition invoke :: "'w env \<Rightarrow> locals \<Rightarrow> 'w \<Rightarrow> int \<times> nat \<times> 'w \<times> event list" where
  "invoke E L w =
     (case action_fn_tbl E (unat (opcode (v_cmd L))) of
        None \<Rightarrow> (- EINVAL, v_dout_size L, w, [])
      | Some f \<Rightarrow>
          (case action_pre_fn E w of
             (r, w1) \<Rightarrow>
               if r = 0
               then (case f (opcode (v_cmd L)) (v_carg L) (v_din L) (v_din_size L)
                             (v_rarg L) (v_dout L) (v_dout_size L) (v_fd L) w1 of
                       ((r', dsz), w2) \<Rightarrow>
                         (r', dsz, action_post_fn E w2,
                          [Ev_action_pre r,
                           Ev_action (opcode (v_cmd L)) (v_carg L) (v_din L) (v_din_size L)
                             (v_rarg L) (v_dout L) (v_dout_size L) (v_fd L) r' dsz,
                           Ev_action_post]))
               else (r, v_dout_size L, w1, [Ev_action_pre r])))"

text \<open>Lines 192-194: the calls of \<^verbatim>\<open>write_fill\<close> joined by \<^verbatim>\<open>||\<close>: the first call that
  returns a negative value ends the chain. The result is whether one failed.\<close>

fun write_fills :: "'w env \<Rightarrow> (wsrc \<times> nat) list \<Rightarrow> 'w \<Rightarrow> bool \<times> 'w \<times> event list" where
  "write_fills E [] w = (False, w, [])"
| "write_fills E ((s, n) # rest) w =
     (case write_fill E s n w of
        (rc, w1) \<Rightarrow>
          if rc < 0 then (True, w1, [Ev_write_fill s n rc])
          else (case write_fills E rest w1 of
                  (failed, w2, tr) \<Rightarrow> (failed, w2, Ev_write_fill s n rc # tr)))"

text \<open>Line 184: storing the \<^verbatim>\<open>ssize_t\<close> \<open>ret\<close> in the 32-bit \<^verbatim>\<open>int\<close> field \<open>result\<close> keeps
  its low 32 bits, read as two's complement.\<close>

definition int32_of :: "int \<Rightarrow> int" where
  "int32_of x = sint (word_of_int x :: 32 word)"

text \<open>Line 98 and lines 184-190: the reply header, and the two lengths after the
  \<^verbatim>\<open>else\<close> branch has zeroed them. The sign test of line 185 is on \<open>ret\<close> itself, not on
  the field. Storing \<open>dout_size\<close> in the 32-bit field keeps its low 32 bits.\<close>

definition mk_reply :: "'w env \<Rightarrow> int \<Rightarrow> nat \<Rightarrow> ossp_reply" where
  "mk_reply E ret dsz =
     (let reply = \<lparr>r_magic = OSSP_REPLY_MAGIC E, r_result = 0, r_dout_size = 0\<rparr>;
          reply = reply\<lparr>r_result := int32_of ret\<rparr>
      in if ret \<ge> 0 then reply\<lparr>r_dout_size := of_nat dsz\<rparr> else reply)"

definition reply_rarg_size :: "locals \<Rightarrow> int \<Rightarrow> nat" where
  "reply_rarg_size L ret = (if ret \<ge> 0 then v_rarg_size L else 0)"

definition reply_dout_size :: "int \<Rightarrow> nat \<Rightarrow> nat" where
  "reply_dout_size ret dsz = (if ret \<ge> 0 then dsz else 0)"

text \<open>Lines 184-197: the reply.\<close>

definition send_reply :: "'w env \<Rightarrow> locals \<Rightarrow> int \<Rightarrow> nat \<Rightarrow> 'w \<Rightarrow> int \<times> 'w \<times> event list" where
  "send_reply E L ret dsz w =
     (case write_fills E [(Reply (mk_reply E ret dsz), sizeof_reply),
                          (Ptr (v_rarg L), reply_rarg_size L ret),
                          (Ptr (v_dout L), reply_dout_size ret dsz)] w of
        (failed, w1, tr) \<Rightarrow> (if failed then - EIO else 1, w1, tr))"

text \<open>Lines 81-198: the whole function: its return value, the world it leaves and the
  calls it made.\<close>

definition ossp_slave_process_command :: "'w env \<Rightarrow> 'w \<Rightarrow> int \<times> 'w \<times> event list" where
  "ossp_slave_process_command E w =
     (case prepare E w of
        Inl r \<Rightarrow> r
      | Inr (L, w1, tr1) \<Rightarrow>
          (case invoke E L w1 of
             (ret, dsz, w2, tr2) \<Rightarrow>
               (case send_reply E L ret dsz w2 of
                  (rv, w3, tr3) \<Rightarrow> (rv, w3, tr1 @ tr2 @ tr3))))"

text \<open>Lines 138-141 and 148-151: the four buffers with the sizes \<^verbatim>\<open>ensure_sbuf_size\<close> is
  called with, as \<open>prepare\<close> passes them.\<close>

abbreviation sbuf_sizes :: "'w env \<Rightarrow> msg \<Rightarrow> (sbuf \<times> nat) list" where
  "sbuf_sizes E m \<equiv>
     [(Carg_sbuf, carg_size (ossp_arg_sizes E ! unat (opcode (m_cmd m)))),
      (Din_sbuf, unat (din_size (m_cmd m))),
      (Rarg_sbuf, rarg_size (ossp_arg_sizes E ! unat (opcode (m_cmd m)))),
      (Dout_sbuf, unat (dout_size (m_cmd m)))]"

subsection \<open>Reading a list of calls\<close>

fun is_write :: "event \<Rightarrow> bool" where
  "is_write (Ev_write_fill s n rc) = True"
| "is_write _ = False"

fun is_hook :: "event \<Rightarrow> bool" where
  "is_hook (Ev_action_pre r) = True"
| "is_hook (Ev_action opc ca di dn ra dout dsz fd r dsz') = True"
| "is_hook Ev_action_post = True"
| "is_hook _ = False"

fun is_read :: "event \<Rightarrow> bool" where
  "is_read (Ev_read_fill p n rc) = True"
| "is_read _ = False"

fun is_ensure :: "event \<Rightarrow> bool" where
  "is_ensure (Ev_ensure_sbuf_size b n rc) = True"
| "is_ensure _ = False"

text \<open>The reply headers handed to \<^verbatim>\<open>write_fill\<close>, the pointer and length of every other
  \<^verbatim>\<open>write_fill\<close>, and what the calls of \<^verbatim>\<open>write_fill\<close> returned, each in the order of the
  calls.\<close>

fun replies :: "event list \<Rightarrow> ossp_reply list" where
  "replies [] = []"
| "replies (Ev_write_fill (Reply r) n rc # es) = r # replies es"
| "replies (e # es) = replies es"

fun payload_writes :: "event list \<Rightarrow> (ptr \<times> nat) list" where
  "payload_writes [] = []"
| "payload_writes (Ev_write_fill (Ptr p) n rc # es) = (p, n) # payload_writes es"
| "payload_writes (e # es) = payload_writes es"

fun write_results :: "event list \<Rightarrow> int list" where
  "write_results [] = []"
| "write_results (Ev_write_fill s n rc # es) = rc # write_results es"
| "write_results (e # es) = write_results es"

text \<open>The buffer and size of every call of \<^verbatim>\<open>ensure_sbuf_size\<close>, in the order of the
  calls.\<close>

fun ensure_calls :: "event list \<Rightarrow> (sbuf \<times> nat) list" where
  "ensure_calls [] = []"
| "ensure_calls (Ev_ensure_sbuf_size b n rc # es) = (b, n) # ensure_calls es"
| "ensure_calls (e # es) = ensure_calls es"

subsection \<open>A concrete environment\<close>

text \<open>
  An environment to run the model on: the world is the number of calls made so far. The
  table has two opcodes: opcode 0 has a fixed argument of 4 bytes in and 8 bytes out and
  no descriptor, opcode 1 has no fixed arguments and carries a descriptor. \<^verbatim>\<open>recvmsg\<close>
  delivers the given message; \<^verbatim>\<open>ensure_sbuf_size\<close> fails with \<open>-ENOMEM\<close> above the given
  limit; \<^verbatim>\<open>read_fill\<close> succeeds; \<^verbatim>\<open>write_fill\<close> returns the given value; the pre hook
  returns the given value; the action registered for both opcodes returns the given
  result and halves \<open>dout_size\<close>.
\<close>

definition test_tbl :: "ossp_arg_size list" where
  "test_tbl = [\<lparr>carg_size = 4, rarg_size = 8, has_fd = False\<rparr>,
               \<lparr>carg_size = 0, rarg_size = 0, has_fd = True\<rparr>]"

definition test_action :: "int \<Rightarrow> nat action_fn" where
  "test_action res = (\<lambda>opc ca di dn ra dout dsz fd w. ((res, dsz div 2), Suc w))"

definition test_env :: "msg \<Rightarrow> nat \<Rightarrow> int \<Rightarrow> int \<Rightarrow> int \<Rightarrow> nat env" where
  "test_env m limit wrc pre res =
     \<lparr>OSSP_CMD_MAGIC = 0xdeadbeef, OSSP_REPLY_MAGIC = 0xbeefdead,
      ossp_arg_sizes = test_tbl,
      recvmsg = (\<lambda>w. (m, Suc w)),
      ensure_sbuf_size = (\<lambda>b n w. (if n > limit then - ENOMEM else 0, Suc w)),
      read_fill = (\<lambda>p n w. (0, Suc w)),
      write_fill = (\<lambda>s n w. (wrc, Suc w)),
      action_fn_tbl = (\<lambda>i. if i < 2 then Some (test_action res) else None),
      action_pre_fn = (\<lambda>w. (pre, Suc w)),
      action_post_fn = Suc\<rparr>"

definition test_msg :: "int \<Rightarrow> 32 word \<Rightarrow> 32 word \<Rightarrow> 32 word \<Rightarrow> 32 word \<Rightarrow> cmsghdr list \<Rightarrow> msg" where
  "test_msg n mg opc din dout cs =
     \<lparr>m_ret = n, m_errno = 0,
      m_cmd = \<lparr>magic = mg, opcode = opc, din_size = din, dout_size = dout\<rparr>,
      m_cmsgs = cs\<rparr>"

text \<open>
  A second environment, whose world records what was done to it: the source and length of
  every \<^verbatim>\<open>write_fill\<close>, in order, and how often the pre hook, the action and the post hook
  were applied. \<^verbatim>\<open>recvmsg\<close> delivers the given message, buffers always grow, reads and
  writes succeed, the pre hook returns the given value and the action the given result,
  halving \<open>dout_size\<close>. \<open>wire_msg\<close> is a request for opcode 0 with 3 bytes of data in and
  room for 10 bytes of data out; \<open>wire_locals\<close> and \<open>wire_prepared\<close> are the local variables
  and the calls made when this request reaches line 173.
\<close>

record chan =
  sent :: "(wsrc \<times> nat) list"
  pre_calls :: nat
  action_calls :: nat
  post_calls :: nat

definition chan0 :: chan where
  "chan0 = \<lparr>sent = [], pre_calls = 0, action_calls = 0, post_calls = 0\<rparr>"

definition wire_action :: "int \<Rightarrow> chan action_fn" where
  "wire_action res =
     (\<lambda>opc ca di dn ra dout dsz fd w.
        ((res, dsz div 2), w\<lparr>action_calls := Suc (action_calls w)\<rparr>))"

definition wire_env :: "msg \<Rightarrow> int \<Rightarrow> int \<Rightarrow> chan env" where
  "wire_env m pre res =
     \<lparr>OSSP_CMD_MAGIC = 0xdeadbeef, OSSP_REPLY_MAGIC = 0xbeefdead,
      ossp_arg_sizes = test_tbl,
      recvmsg = (\<lambda>w. (m, w)),
      ensure_sbuf_size = (\<lambda>b n w. (0, w)),
      read_fill = (\<lambda>p n w. (0, w)),
      write_fill = (\<lambda>s n w. (0, w\<lparr>sent := sent w @ [(s, n)]\<rparr>)),
      action_fn_tbl = (\<lambda>i. if i < 2 then Some (wire_action res) else None),
      action_pre_fn = (\<lambda>w. (pre, w\<lparr>pre_calls := Suc (pre_calls w)\<rparr>)),
      action_post_fn = (\<lambda>w. w\<lparr>post_calls := Suc (post_calls w)\<rparr>)\<rparr>"

definition wire_msg :: msg where
  "wire_msg = test_msg 16 0xdeadbeef 0 3 10 []"

definition wire_locals :: locals where
  "wire_locals =
     \<lparr>v_cmd = \<lparr>magic = 0xdeadbeef, opcode = 0, din_size = 3, dout_size = 10\<rparr>,
      v_fd = - 1, v_carg_size = 4, v_din_size = 3, v_rarg_size = 8, v_dout_size = 10,
      v_carg = Buf Carg_sbuf, v_din = Buf Din_sbuf, v_rarg = Buf Rarg_sbuf,
      v_dout = Buf Dout_sbuf\<rparr>"

definition wire_prepared :: "event list" where
  "wire_prepared =
     [Ev_recvmsg wire_msg,
      Ev_ensure_sbuf_size Carg_sbuf 4 0, Ev_ensure_sbuf_size Din_sbuf 3 0,
      Ev_ensure_sbuf_size Rarg_sbuf 8 0, Ev_ensure_sbuf_size Dout_sbuf 10 0,
      Ev_read_fill (Buf Carg_sbuf) 4 0, Ev_read_fill (Buf Din_sbuf) 3 0]"

section \<open>Properties\<close>

subsection \<open>What each stage calls\<close>

lemma validate_Inl_EINVAL:
  "0 < m_ret m \<Longrightarrow> validate E m = Inl rv \<Longrightarrow> rv = - EINVAL"
  by (auto simp: validate_def split: if_splits option.splits)

lemma process_validate_Inl:
  "recvmsg E w = (m, w1) \<Longrightarrow> validate E m = Inl rv \<Longrightarrow>
   ossp_slave_process_command E w = (rv, w1, [Ev_recvmsg m])"
  by (simp add: ossp_slave_process_command_def prepare_def)

lemma scan_cmsgs_None_iff:
  "scan_cmsgs cs fd = None \<longleftrightarrow>
   (\<exists>c\<in>set cs. cmsg_level c \<noteq> SOL_SOCKET \<or> cmsg_type c \<noteq> SCM_RIGHTS)"
  by (induction cs arbitrary: fd) auto

lemma scan_cmsgs_Some:
  assumes "\<forall>c\<in>set cs. cmsg_level c = SOL_SOCKET \<and> cmsg_type c = SCM_RIGHTS"
  shows "scan_cmsgs cs fd = Some (if cs = [] then fd else cmsg_data (last cs))"
  using assms
proof (induction cs arbitrary: fd)
  case Nil
  show ?case by simp
next
  case (Cons c cs)
  from Cons.prems have c: "cmsg_level c = SOL_SOCKET \<and> cmsg_type c = SCM_RIGHTS"
    and rest: "\<forall>c\<in>set cs. cmsg_level c = SOL_SOCKET \<and> cmsg_type c = SCM_RIGHTS"
    by simp_all
  from c have "scan_cmsgs (c # cs) fd = scan_cmsgs cs (cmsg_data c)" by simp
  also from Cons.IH [OF rest]
  have "\<dots> = Some (if cs = [] then cmsg_data c else cmsg_data (last cs))" .
  finally show ?case by (cases cs) simp_all
qed

lemma filter_ensure_sbufs:
  "ensure_sbufs E xs w = (failed, w', tr) \<Longrightarrow>
   filter is_write tr = [] \<and> filter is_hook tr = [] \<and> filter is_read tr = []"
proof (induction xs arbitrary: w failed w' tr)
  case Nil
  then show ?case by simp
next
  case (Cons x xs)
  obtain b n where x: "x = (b, n)" by (cases x)
  obtain rc w1 where c: "ensure_sbuf_size E b n w = (rc, w1)"
    by (cases "ensure_sbuf_size E b n w")
  obtain f2 w2 tr2 where r: "ensure_sbufs E xs w1 = (f2, w2, tr2)"
    by (cases "ensure_sbufs E xs w1")
  from Cons.IH [OF r] Cons.prems x c r show ?case
    by (auto split: if_splits)
qed

lemma filter_write_fills:
  "write_fills E xs w = (failed, w', tr) \<Longrightarrow>
   filter is_write tr = tr \<and> filter is_hook tr = [] \<and> filter is_read tr = []"
proof (induction xs arbitrary: w failed w' tr)
  case Nil
  then show ?case by simp
next
  case (Cons x xs)
  obtain s n where x: "x = (s, n)" by (cases x)
  obtain rc w1 where c: "write_fill E s n w = (rc, w1)"
    by (cases "write_fill E s n w")
  obtain f2 w2 tr2 where r: "write_fills E xs w1 = (f2, w2, tr2)"
    by (cases "write_fills E xs w1")
  from Cons.IH [OF r] Cons.prems x c r show ?case
    by (auto split: if_splits)
qed

lemma read_payload_Inl:
  assumes "read_payload E a b w = Inl (rv, w', tr)"
  shows "rv < 0 \<and> filter is_write tr = [] \<and> filter is_hook tr = []"
proof -
  obtain rc1 w1 where r1: "read_fill E (Buf Carg_sbuf) a w = (rc1, w1)"
    by (cases "read_fill E (Buf Carg_sbuf) a w")
  obtain rc2 w2 where r2: "read_fill E (Buf Din_sbuf) b w1 = (rc2, w2)"
    by (cases "read_fill E (Buf Din_sbuf) b w1")
  obtain rc3 w3 where r3: "read_fill E (Buf Din_sbuf) b w = (rc3, w3)"
    by (cases "read_fill E (Buf Din_sbuf) b w")
  from assms r1 r2 r3 show ?thesis
    by (auto simp add: read_payload_def split: if_splits)
qed

lemma read_payload_Inr:
  assumes "read_payload E a b w = Inr (w', tr)"
  shows "filter is_write tr = [] \<and> filter is_hook tr = []"
proof -
  obtain rc1 w1 where r1: "read_fill E (Buf Carg_sbuf) a w = (rc1, w1)"
    by (cases "read_fill E (Buf Carg_sbuf) a w")
  obtain rc2 w2 where r2: "read_fill E (Buf Din_sbuf) b w1 = (rc2, w2)"
    by (cases "read_fill E (Buf Din_sbuf) b w1")
  obtain rc3 w3 where r3: "read_fill E (Buf Din_sbuf) b w = (rc3, w3)"
    by (cases "read_fill E (Buf Din_sbuf) b w")
  from assms r1 r2 r3 show ?thesis
    by (auto simp add: read_payload_def split: if_splits)
qed

text \<open>What \<open>prepare\<close> computes once the message is known.\<close>

lemma prepare_validate_Inl:
  "recvmsg E w = (m, w1) \<Longrightarrow> validate E m = Inl rv \<Longrightarrow>
   prepare E w = Inl (rv, w1, [Ev_recvmsg m])"
  by (simp add: prepare_def)

lemma prepare_validate_Inr:
  assumes "recvmsg E w = (m, w1)" and "validate E m = Inr fd"
    and "ensure_sbufs E
           [(Carg_sbuf, carg_size (ossp_arg_sizes E ! unat (opcode (m_cmd m)))),
            (Din_sbuf, unat (din_size (m_cmd m))),
            (Rarg_sbuf, rarg_size (ossp_arg_sizes E ! unat (opcode (m_cmd m)))),
            (Dout_sbuf, unat (dout_size (m_cmd m)))] w1 = (failed, w2, tr2)"
  shows "prepare E w =
     (if failed then Inl (- ENOMEM, w2, Ev_recvmsg m # tr2)
      else (case read_payload E (carg_size (ossp_arg_sizes E ! unat (opcode (m_cmd m))))
                   (unat (din_size (m_cmd m))) w2 of
              Inl (rv, w3, tr3) \<Rightarrow> Inl (rv, w3, Ev_recvmsg m # tr2 @ tr3)
            | Inr (w3, tr3) \<Rightarrow>
                Inr (\<lparr>v_cmd = m_cmd m, v_fd = fd,
                      v_carg_size = carg_size (ossp_arg_sizes E ! unat (opcode (m_cmd m))),
                      v_din_size = unat (din_size (m_cmd m)),
                      v_rarg_size = rarg_size (ossp_arg_sizes E ! unat (opcode (m_cmd m))),
                      v_dout_size = unat (dout_size (m_cmd m)),
                      v_carg = (if carg_size (ossp_arg_sizes E ! unat (opcode (m_cmd m))) \<noteq> 0
                                then Buf Carg_sbuf else Null),
                      v_din = (if unat (din_size (m_cmd m)) \<noteq> 0 then Buf Din_sbuf else Null),
                      v_rarg = (if rarg_size (ossp_arg_sizes E ! unat (opcode (m_cmd m))) \<noteq> 0
                                then Buf Rarg_sbuf else Null),
                      v_dout = (if unat (dout_size (m_cmd m)) \<noteq> 0 then Buf Dout_sbuf else Null)\<rparr>,
                     w3, Ev_recvmsg m # tr2 @ tr3)))"
  using assms by (simp add: prepare_def Let_def)

lemma prepare_quiet:
  assumes "prepare E w = Inl (rv, w', tr) \<or> prepare E w = Inr (L, w', tr)"
  shows "filter is_write tr = [] \<and> filter is_hook tr = []"
proof -
  obtain m w1 where rm: "recvmsg E w = (m, w1)" by (cases "recvmsg E w")
  show ?thesis
  proof (cases "validate E m")
    case (Inl a)
    from prepare_validate_Inl [OF rm Inl] assms show ?thesis by auto
  next
    case (Inr fd)
    let ?c = "carg_size (ossp_arg_sizes E ! unat (opcode (m_cmd m)))"
    let ?r = "rarg_size (ossp_arg_sizes E ! unat (opcode (m_cmd m)))"
    let ?xs = "[(Carg_sbuf, ?c), (Din_sbuf, unat (din_size (m_cmd m))),
                (Rarg_sbuf, ?r), (Dout_sbuf, unat (dout_size (m_cmd m)))]"
    obtain failed w2 tr2 where en: "ensure_sbufs E ?xs w1 = (failed, w2, tr2)"
      by (cases "ensure_sbufs E ?xs w1")
    note q2 = filter_ensure_sbufs [OF en]
    note p = prepare_validate_Inr [OF rm Inr en]
    show ?thesis
    proof (cases failed)
      case True
      with p assms q2 show ?thesis by auto
    next
      case False
      show ?thesis
      proof (cases "read_payload E ?c (unat (din_size (m_cmd m))) w2")
        case (Inl a)
        obtain rv3 w3 tr3 where a: "a = (rv3, w3, tr3)" by (cases a)
        from Inl a have "read_payload E ?c (unat (din_size (m_cmd m))) w2 = Inl (rv3, w3, tr3)"
          by simp
        from read_payload_Inl [OF this]
        have "filter is_write tr3 = [] \<and> filter is_hook tr3 = []" by simp
        with p False Inl a assms q2 show ?thesis by auto
      next
        case (Inr b)
        obtain w3 tr3 where b: "b = (w3, tr3)" by (cases b)
        from Inr b have "read_payload E ?c (unat (din_size (m_cmd m))) w2 = Inr (w3, tr3)"
          by simp
        from read_payload_Inr [OF this]
        have "filter is_write tr3 = [] \<and> filter is_hook tr3 = []" by simp
        with p False Inr b assms q2 show ?thesis by auto
      qed
    qed
  qed
qed

lemma invoke_no_write:
  "invoke E L w = (ret, dsz, w', tr) \<Longrightarrow> filter is_write tr = [] \<and> filter is_hook tr = tr"
  by (auto simp: invoke_def split: option.splits prod.splits if_splits)

lemma send_reply_events:
  assumes "send_reply E L ret dsz w = (rv, w', tr)"
  shows "filter is_write tr = tr \<and> filter is_hook tr = []"
proof -
  let ?xs = "[(Reply (mk_reply E ret dsz), sizeof_reply),
              (Ptr (v_rarg L), reply_rarg_size L ret),
              (Ptr (v_dout L), reply_dout_size ret dsz)]"
  obtain failed w1 tr1 where wf: "write_fills E ?xs w = (failed, w1, tr1)"
    by (cases "write_fills E ?xs w")
  with assms have "tr = tr1" by (simp add: send_reply_def del: write_fills.simps)
  with filter_write_fills [OF wf] show ?thesis by simp
qed

lemma process_prepare_Inr:
  "prepare E w = Inr (L, w1, tr1) \<Longrightarrow> invoke E L w1 = (ret, dsz, w2, tr2) \<Longrightarrow>
   send_reply E L ret dsz w2 = (rv, w3, tr3) \<Longrightarrow>
   ossp_slave_process_command E w = (rv, w3, tr1 @ tr2 @ tr3)"
  by (simp add: ossp_slave_process_command_def)

lemma replies_append: "replies (xs @ ys) = replies xs @ replies ys"
  by (induction xs rule: replies.induct) simp_all

lemma payload_writes_append: "payload_writes (xs @ ys) = payload_writes xs @ payload_writes ys"
  by (induction xs rule: payload_writes.induct) simp_all

lemma write_results_append: "write_results (xs @ ys) = write_results xs @ write_results ys"
  by (induction xs rule: write_results.induct) simp_all

lemma no_write_reading:
  "filter is_write tr = [] \<Longrightarrow>
   replies tr = [] \<and> payload_writes tr = [] \<and> write_results tr = []"
proof (induction tr)
  case Nil
  show ?case by simp
next
  case (Cons e es)
  then show ?case by (cases e) (simp_all split: if_splits)
qed

lemma write_fills3:
  assumes "write_fill E s0 n0 w = (rc0, w1)" and "write_fill E s1 n1 w1 = (rc1, w2)"
    and "write_fill E s2 n2 w2 = (rc2, w3)"
  shows "write_fills E [(s0, n0), (s1, n1), (s2, n2)] w =
     (if rc0 < 0 then (True, w1, [Ev_write_fill s0 n0 rc0])
      else if rc1 < 0 then (True, w2, [Ev_write_fill s0 n0 rc0, Ev_write_fill s1 n1 rc1])
      else (rc2 < 0, w3,
            [Ev_write_fill s0 n0 rc0, Ev_write_fill s1 n1 rc1, Ev_write_fill s2 n2 rc2]))"
  using assms by simp

lemma send_reply_unfold:
  assumes "write_fill E (Reply (mk_reply E ret dsz)) sizeof_reply w = (rc0, w1)"
    and "write_fill E (Ptr (v_rarg L)) (reply_rarg_size L ret) w1 = (rc1, w2)"
    and "write_fill E (Ptr (v_dout L)) (reply_dout_size ret dsz) w2 = (rc2, w3)"
  shows "send_reply E L ret dsz w =
     (if rc0 < 0
      then (- EIO, w1, [Ev_write_fill (Reply (mk_reply E ret dsz)) sizeof_reply rc0])
      else if rc1 < 0
      then (- EIO, w2, [Ev_write_fill (Reply (mk_reply E ret dsz)) sizeof_reply rc0,
                        Ev_write_fill (Ptr (v_rarg L)) (reply_rarg_size L ret) rc1])
      else (if rc2 < 0 then - EIO else 1, w3,
            [Ev_write_fill (Reply (mk_reply E ret dsz)) sizeof_reply rc0,
             Ev_write_fill (Ptr (v_rarg L)) (reply_rarg_size L ret) rc1,
             Ev_write_fill (Ptr (v_dout L)) (reply_dout_size ret dsz) rc2]))"
  unfolding send_reply_def write_fills3 [OF assms] by simp

lemma validate_Inr_D:
  "validate E m = Inr fd \<Longrightarrow>
   m_ret m = int sizeof_cmd \<and> magic (m_cmd m) = OSSP_CMD_MAGIC E \<and>
   scan_cmsgs (m_cmsgs m) (- 1) = Some fd \<and>
   unat (opcode (m_cmd m)) < OSSP_NR_OPCODES E \<and>
   (0 \<le> fd) = has_fd (ossp_arg_sizes E ! unat (opcode (m_cmd m)))"
  by (simp add: validate_def split: if_splits option.splits)

lemma hook_in_trace_validate:
  assumes "recvmsg E w = (m, w1)"
    and "\<exists>e\<in>set (snd (snd (ossp_slave_process_command E w))). is_hook e"
  shows "\<exists>fd. validate E m = Inr fd"
proof (cases "validate E m")
  case (Inl rv)
  from process_validate_Inl [OF assms(1) Inl] assms(2) show ?thesis by simp
next
  case (Inr fd)
  then show ?thesis by blast
qed

lemma validate_fails:
  assumes "0 < m_ret m"
    and "m_ret m \<noteq> int sizeof_cmd \<or> magic (m_cmd m) \<noteq> OSSP_CMD_MAGIC E \<or>
         scan_cmsgs (m_cmsgs m) (- 1) = None \<or>
         OSSP_NR_OPCODES E \<le> unat (opcode (m_cmd m)) \<or>
         (\<exists>fd. scan_cmsgs (m_cmsgs m) (- 1) = Some fd \<and>
               (0 \<le> fd) \<noteq> has_fd (ossp_arg_sizes E ! unat (opcode (m_cmd m))))"
  shows "validate E m = Inl (- EINVAL)"
  using assms by (auto simp: validate_def split: option.splits)

lemma process_ensure_fails:
  assumes "recvmsg E w = (m, w1)" and "validate E m = Inr fd"
    and "ensure_sbufs E (sbuf_sizes E m) w1 = (True, w2, tr2)"
  shows "ossp_slave_process_command E w = (- ENOMEM, w2, Ev_recvmsg m # tr2)"
  using prepare_validate_Inr [OF assms] by (simp add: ossp_slave_process_command_def)

lemma process_reply_stage:
  assumes "prepare E w = Inr (L, w1, tr1)" and "invoke E L w1 = (ret, dsz, w2, tr2)"
    and "write_fill E (Reply (mk_reply E ret dsz)) sizeof_reply w2 = (rc0, w3)"
    and "write_fill E (Ptr (v_rarg L)) (reply_rarg_size L ret) w3 = (rc1, w4)"
    and "write_fill E (Ptr (v_dout L)) (reply_dout_size ret dsz) w4 = (rc2, w5)"
  shows "ossp_slave_process_command E w =
     (if rc0 < 0
      then (- EIO, w3,
            tr1 @ tr2 @ [Ev_write_fill (Reply (mk_reply E ret dsz)) sizeof_reply rc0])
      else if rc1 < 0
      then (- EIO, w4,
            tr1 @ tr2 @ [Ev_write_fill (Reply (mk_reply E ret dsz)) sizeof_reply rc0,
                         Ev_write_fill (Ptr (v_rarg L)) (reply_rarg_size L ret) rc1])
      else (if rc2 < 0 then - EIO else 1, w5,
            tr1 @ tr2 @ [Ev_write_fill (Reply (mk_reply E ret dsz)) sizeof_reply rc0,
                         Ev_write_fill (Ptr (v_rarg L)) (reply_rarg_size L ret) rc1,
                         Ev_write_fill (Ptr (v_dout L)) (reply_dout_size ret dsz) rc2]))"
proof -
  from assms(1,2) have "ossp_slave_process_command E w =
     (case send_reply E L ret dsz w2 of (rv, w3, tr3) \<Rightarrow> (rv, w3, tr1 @ tr2 @ tr3))"
    by (simp add: ossp_slave_process_command_def)
  then show ?thesis
    unfolding send_reply_unfold [OF assms(3) assms(4) assms(5)] by simp
qed

lemma before_reply_reading:
  assumes "prepare E w = Inr (L, w1, tr1)" and "invoke E L w1 = (ret, dsz, w2, tr2)"
  shows "replies (tr1 @ tr2 @ tr3) = replies tr3"
    and "payload_writes (tr1 @ tr2 @ tr3) = payload_writes tr3"
    and "write_results (tr1 @ tr2 @ tr3) = write_results tr3"
    and "filter is_write (tr1 @ tr2 @ tr3) = filter is_write tr3"
proof -
  from prepare_quiet [of E w _ _ tr1 L] assms(1) have q1: "filter is_write tr1 = []" by simp
  from invoke_no_write [OF assms(2)] have q2: "filter is_write tr2 = []" by simp
  from no_write_reading [OF q1] no_write_reading [OF q2]
  show "replies (tr1 @ tr2 @ tr3) = replies tr3"
    and "payload_writes (tr1 @ tr2 @ tr3) = payload_writes tr3"
    and "write_results (tr1 @ tr2 @ tr3) = write_results tr3"
    by (simp_all add: replies_append payload_writes_append write_results_append)
  from q1 q2 show "filter is_write (tr1 @ tr2 @ tr3) = filter is_write tr3" by simp
qed

lemma prepare_Inr_locals:
  assumes "prepare E w = Inr (L, w', tr)"
  shows "v_din_size L = unat (din_size (v_cmd L)) \<and>
         v_dout_size L = unat (dout_size (v_cmd L)) \<and>
         v_carg_size L = carg_size (ossp_arg_sizes E ! unat (opcode (v_cmd L))) \<and>
         v_rarg_size L = rarg_size (ossp_arg_sizes E ! unat (opcode (v_cmd L))) \<and>
         v_carg L = (if v_carg_size L = 0 then Null else Buf Carg_sbuf) \<and>
         v_din L = (if v_din_size L = 0 then Null else Buf Din_sbuf) \<and>
         v_rarg L = (if v_rarg_size L = 0 then Null else Buf Rarg_sbuf) \<and>
         v_dout L = (if v_dout_size L = 0 then Null else Buf Dout_sbuf)"
proof -
  obtain m w1 where rm: "recvmsg E w = (m, w1)" by (cases "recvmsg E w")
  show ?thesis
  proof (cases "validate E m")
    case (Inl a)
    from prepare_validate_Inl [OF rm Inl] assms show ?thesis by simp
  next
    case (Inr fd)
    obtain failed w2 tr2 where en: "ensure_sbufs E (sbuf_sizes E m) w1 = (failed, w2, tr2)"
      by (cases "ensure_sbufs E (sbuf_sizes E m) w1")
    note p = prepare_validate_Inr [OF rm Inr en]
    show ?thesis
    proof (cases failed)
      case True
      with p assms show ?thesis by simp
    next
      case False
      show ?thesis
      proof (cases "read_payload E (carg_size (ossp_arg_sizes E ! unat (opcode (m_cmd m))))
                      (unat (din_size (m_cmd m))) w2")
        case (Inl a)
        obtain rv3 w3 tr3 where "a = (rv3, w3, tr3)" by (cases a)
        with p False Inl assms show ?thesis by simp
      next
        case (Inr b)
        obtain w3 tr3 where "b = (w3, tr3)" by (cases b)
        with p False Inr assms show ?thesis by auto
      qed
    qed
  qed
qed

lemma read_payload_trace:
  "\<exists>tr. (\<exists>rv w'. read_payload E a b w = Inl (rv, w', tr) \<or> read_payload E a b w = Inr (w', tr)) \<and>
        filter is_ensure tr = [] \<and>
        (b \<noteq> 0 \<and> (a = 0 \<or> 0 \<le> fst (read_fill E (Buf Carg_sbuf) a w)) \<longrightarrow>
           (\<exists>rc. Ev_read_fill (Buf Din_sbuf) b rc \<in> set tr))"
proof -
  obtain rc1 w1 where r1: "read_fill E (Buf Carg_sbuf) a w = (rc1, w1)"
    by (cases "read_fill E (Buf Carg_sbuf) a w")
  obtain rc2 w2 where r2: "read_fill E (Buf Din_sbuf) b w1 = (rc2, w2)"
    by (cases "read_fill E (Buf Din_sbuf) b w1")
  obtain rc3 w3 where r3: "read_fill E (Buf Din_sbuf) b w = (rc3, w3)"
    by (cases "read_fill E (Buf Din_sbuf) b w")
  show ?thesis
  proof (cases "a = 0")
    case a0: True
    show ?thesis
    proof (cases "b = 0")
      case True
      with a0 show ?thesis by (simp add: read_payload_def)
    next
      case False
      with a0 r3 show ?thesis by (simp add: read_payload_def)
    qed
  next
    case a1: False
    show ?thesis
    proof (cases "rc1 < 0")
      case True
      with a1 r1 show ?thesis by (simp add: read_payload_def)
    next
      case n1: False
      show ?thesis
      proof (cases "b = 0")
        case True
        with a1 n1 r1 show ?thesis by (simp add: read_payload_def)
      next
        case False
        with a1 n1 r1 r2 show ?thesis by (simp add: read_payload_def)
      qed
    qed
  qed
qed

lemma invoke_no_ensure:
  "invoke E L w = (ret, dsz, w', tr) \<Longrightarrow> filter is_ensure tr = []"
  by (auto simp: invoke_def split: option.splits prod.splits if_splits)

lemma send_reply_no_ensure:
  assumes "send_reply E L ret dsz w = (rv, w', tr)"
  shows "filter is_ensure tr = []"
proof -
  obtain rc0 w1 where a0: "write_fill E (Reply (mk_reply E ret dsz)) sizeof_reply w = (rc0, w1)"
    by (cases "write_fill E (Reply (mk_reply E ret dsz)) sizeof_reply w")
  obtain rc1 w2 where a1: "write_fill E (Ptr (v_rarg L)) (reply_rarg_size L ret) w1 = (rc1, w2)"
    by (cases "write_fill E (Ptr (v_rarg L)) (reply_rarg_size L ret) w1")
  obtain rc2 w3 where a2: "write_fill E (Ptr (v_dout L)) (reply_dout_size ret dsz) w2 = (rc2, w3)"
    by (cases "write_fill E (Ptr (v_dout L)) (reply_dout_size ret dsz) w2")
  from assms show ?thesis
    unfolding send_reply_unfold [OF a0 a1 a2] by (auto split: if_splits)
qed

lemma process_after_ensure:
  assumes "recvmsg E w = (m, w1)" and "validate E m = Inr fd"
    and "ensure_sbufs E (sbuf_sizes E m) w1 = (failed, w2, tr2)"
  shows "\<exists>rest. snd (snd (ossp_slave_process_command E w)) = Ev_recvmsg m # tr2 @ rest \<and>
           filter is_ensure rest = [] \<and>
           (failed \<longrightarrow> rest = []) \<and>
           (\<not> failed \<and> unat (din_size (m_cmd m)) \<noteq> 0 \<and>
            (carg_size (ossp_arg_sizes E ! unat (opcode (m_cmd m))) = 0 \<or>
             0 \<le> fst (read_fill E (Buf Carg_sbuf)
                        (carg_size (ossp_arg_sizes E ! unat (opcode (m_cmd m)))) w2)) \<longrightarrow>
            (\<exists>rc. Ev_read_fill (Buf Din_sbuf) (unat (din_size (m_cmd m))) rc \<in> set rest))"
proof (cases failed)
  case True
  with process_ensure_fails [OF assms(1,2)] assms(3) show ?thesis by simp
next
  case False
  let ?a = "carg_size (ossp_arg_sizes E ! unat (opcode (m_cmd m)))"
  let ?b = "unat (din_size (m_cmd m))"
  note p = prepare_validate_Inr [OF assms]
  from read_payload_trace [of E ?a ?b w2] obtain tr3 where
    rp: "\<exists>rv w'. read_payload E ?a ?b w2 = Inl (rv, w', tr3) \<or>
                 read_payload E ?a ?b w2 = Inr (w', tr3)"
    and ne: "filter is_ensure tr3 = []"
    and din: "?b \<noteq> 0 \<and> (?a = 0 \<or> 0 \<le> fst (read_fill E (Buf Carg_sbuf) ?a w2)) \<longrightarrow>
           (\<exists>rc. Ev_read_fill (Buf Din_sbuf) ?b rc \<in> set tr3)"
    by blast
  from rp obtain rv w3 where
    "read_payload E ?a ?b w2 = Inl (rv, w3, tr3) \<or> read_payload E ?a ?b w2 = Inr (w3, tr3)"
    by blast
  then show ?thesis
  proof
    assume "read_payload E ?a ?b w2 = Inl (rv, w3, tr3)"
    with p False have "ossp_slave_process_command E w = (rv, w3, Ev_recvmsg m # tr2 @ tr3)"
      by (simp add: ossp_slave_process_command_def)
    with False ne din show ?thesis by simp
  next
    assume "read_payload E ?a ?b w2 = Inr (w3, tr3)"
    with p False obtain L where pr: "prepare E w = Inr (L, w3, Ev_recvmsg m # tr2 @ tr3)"
      by simp
    obtain ret dsz w4 tr4 where i: "invoke E L w3 = (ret, dsz, w4, tr4)"
      by (cases "invoke E L w3")
    obtain rv' w5 tr5 where s: "send_reply E L ret dsz w4 = (rv', w5, tr5)"
      by (cases "send_reply E L ret dsz w4")
    from process_prepare_Inr [OF pr i s]
    have "snd (snd (ossp_slave_process_command E w)) = Ev_recvmsg m # tr2 @ (tr3 @ tr4 @ tr5)"
      by simp
    moreover from ne invoke_no_ensure [OF i] send_reply_no_ensure [OF s]
    have "filter is_ensure (tr3 @ tr4 @ tr5) = []" by simp
    moreover from din have "?b \<noteq> 0 \<and> (?a = 0 \<or> 0 \<le> fst (read_fill E (Buf Carg_sbuf) ?a w2)) \<longrightarrow>
           (\<exists>rc. Ev_read_fill (Buf Din_sbuf) ?b rc \<in> set (tr3 @ tr4 @ tr5))"
      by auto
    ultimately show ?thesis using False by blast
  qed
qed

lemma ensure_calls_append: "ensure_calls (xs @ ys) = ensure_calls xs @ ensure_calls ys"
  by (induction xs rule: ensure_calls.induct) simp_all

lemma no_ensure_calls: "filter is_ensure tr = [] \<Longrightarrow> ensure_calls tr = []"
proof (induction tr)
  case Nil
  show ?case by simp
next
  case (Cons e es)
  then show ?case by (cases e) (simp_all split: if_splits)
qed

lemma ensure_sbufs_calls:
  "ensure_sbufs E xs w = (failed, w', tr) \<Longrightarrow>
   ensure_calls tr = take (length tr) xs \<and> (\<not> failed \<longrightarrow> length tr = length xs)"
proof (induction xs arbitrary: w failed w' tr)
  case Nil
  then show ?case by simp
next
  case (Cons x xs)
  obtain b n where x: "x = (b, n)" by (cases x)
  obtain rc w1 where c: "ensure_sbuf_size E b n w = (rc, w1)"
    by (cases "ensure_sbuf_size E b n w")
  obtain f2 w2 tr2 where r: "ensure_sbufs E xs w1 = (f2, w2, tr2)"
    by (cases "ensure_sbufs E xs w1")
  from Cons.IH [OF r] Cons.prems x c r show ?case
    by (auto split: if_splits)
qed

lemma reply_stage_summary:
  assumes "prepare E w = Inr (L, w1, tr1)" and "invoke E L w1 = (ret, dsz, w2, tr2)"
  shows "replies (snd (snd (ossp_slave_process_command E w))) = [mk_reply E ret dsz] \<and>
         ((\<exists>rc\<in>set (write_results (snd (snd (ossp_slave_process_command E w)))). rc < 0) \<longrightarrow>
            fst (ossp_slave_process_command E w) = - EIO)"
proof -
  obtain rc0 w3 where a0: "write_fill E (Reply (mk_reply E ret dsz)) sizeof_reply w2 = (rc0, w3)"
    by (cases "write_fill E (Reply (mk_reply E ret dsz)) sizeof_reply w2")
  obtain rc1 w4 where a1: "write_fill E (Ptr (v_rarg L)) (reply_rarg_size L ret) w3 = (rc1, w4)"
    by (cases "write_fill E (Ptr (v_rarg L)) (reply_rarg_size L ret) w3")
  obtain rc2 w5 where a2: "write_fill E (Ptr (v_dout L)) (reply_dout_size ret dsz) w4 = (rc2, w5)"
    by (cases "write_fill E (Ptr (v_dout L)) (reply_dout_size ret dsz) w4")
  note r = process_reply_stage [OF assms a0 a1 a2]
  note b = before_reply_reading(1,3) [OF assms]
  show ?thesis
  proof (cases "rc0 < 0")
    case True
    with r b show ?thesis by simp
  next
    case n0: False
    show ?thesis
    proof (cases "rc1 < 0")
      case True
      with n0 r b show ?thesis by simp
    next
      case n1: False
      with n0 r b show ?thesis by simp
    qed
  qed
qed

lemma invoke_unregistered:
  "action_fn_tbl E (unat (opcode (v_cmd L))) = None \<Longrightarrow>
   invoke E L w = (- EINVAL, v_dout_size L, w, [])"
  by (simp add: invoke_def)

lemma int32_of_id:
  assumes "- (2 ^ 31) \<le> x" and "x < 2 ^ 31"
  shows "int32_of x = x"
proof -
  from assms have "0 \<le> x + 2147483648" and "x + 2147483648 < 4294967296" by simp_all
  then have "(x + 2147483648) mod 4294967296 = x + 2147483648" by simp
  then show ?thesis by (simp add: int32_of_def int_word_sint)
qed

text \<open>The definitions a run on the concrete environments unfolds.\<close>

lemmas run_defs = test_env_def test_msg_def test_tbl_def test_action_def
  ossp_slave_process_command_def prepare_def validate_def read_payload_def invoke_def
  send_reply_def mk_reply_def int32_of_def reply_rarg_size_def reply_dout_size_def
  OSSP_NR_OPCODES_def Let_def sizeof_cmd_def sizeof_reply_def EINVAL_def ENOMEM_def EIO_def
  SOL_SOCKET_def SCM_RIGHTS_def

lemmas wire_defs = wire_env_def wire_action_def chan0_def wire_msg_def wire_locals_def
  wire_prepared_def

subsection \<open>Clean close\<close>

text \<open>
  C9. If the initial \<^verbatim>\<open>recvmsg\<close> returns zero bytes, \<^verbatim>\<open>ossp_slave_process_command\<close>
  returns 0, the "no command" outcome: the only call it made is that \<^verbatim>\<open>recvmsg\<close>, so
  nothing was validated against the table, no buffer was staged, no hook or action ran and
  nothing was written to the channel; the world is the one \<^verbatim>\<open>recvmsg\<close> left.
\<close>

theorem C9_zero_bytes_no_command:
  assumes "recvmsg E w = (m, w1)" and "m_ret m = 0"
  shows "ossp_slave_process_command E w = (0, w1, [Ev_recvmsg m])"
  using assms by (simp add: ossp_slave_process_command_def prepare_def validate_def)

theorem C9_zero_bytes_no_command_witness:
  "ossp_slave_process_command
     (test_env (test_msg 0 0 0 0 0 []) 100 0 0 0) (0::nat)
   = (0, 1, [Ev_recvmsg (test_msg 0 0 0 0 0 [])])"
  using C9_zero_bytes_no_command
    [of "test_env (test_msg 0 0 0 0 0 []) 100 0 0 0" "0::nat" "test_msg 0 0 0 0 0 []" 1]
  by (simp add: test_env_def test_msg_def)

subsection \<open>Header validation\<close>

text \<open>
  C7. For every received message (\<^verbatim>\<open>recvmsg\<close> returned a positive byte count): if the
  count differs from \<^verbatim>\<open>sizeof(cmd)\<close>, or the magic differs from \<^verbatim>\<open>OSSP_CMD_MAGIC\<close>, or the
  opcode is not below \<^verbatim>\<open>OSSP_NR_OPCODES\<close>, the function returns \<open>-EINVAL\<close>, the code the
  source uses for a malformed frame and for an unknown opcode alike, and the only call it
  made is the \<^verbatim>\<open>recvmsg\<close>: no hook and no action ran.
\<close>

theorem C7_header_validation:
  assumes "recvmsg E w = (m, w1)" and "0 < m_ret m"
    and "m_ret m \<noteq> int sizeof_cmd \<or> magic (m_cmd m) \<noteq> OSSP_CMD_MAGIC E \<or>
         OSSP_NR_OPCODES E \<le> unat (opcode (m_cmd m))"
  shows "ossp_slave_process_command E w = (- EINVAL, w1, [Ev_recvmsg m])"
proof -
  from assms(2,3) have "validate E m = Inl (- EINVAL)"
    by (auto simp: validate_def split: option.splits)
  from process_validate_Inl [OF assms(1) this] show ?thesis .
qed

theorem C7_header_validation_witness:
  "ossp_slave_process_command (test_env (test_msg 8 0xdeadbeef 0 0 0 []) 100 0 0 0) (0::nat)
     = (- EINVAL, 1, [Ev_recvmsg (test_msg 8 0xdeadbeef 0 0 0 [])]) \<and>
   ossp_slave_process_command (test_env (test_msg 16 0xbeefdead 0 0 0 []) 100 0 0 0) (0::nat)
     = (- EINVAL, 1, [Ev_recvmsg (test_msg 16 0xbeefdead 0 0 0 [])]) \<and>
   ossp_slave_process_command (test_env (test_msg 16 0xdeadbeef 2 0 0 []) 100 0 0 0) (0::nat)
     = (- EINVAL, 1, [Ev_recvmsg (test_msg 16 0xdeadbeef 2 0 0 [])])"
  using
    C7_header_validation [of "test_env (test_msg 8 0xdeadbeef 0 0 0 []) 100 0 0 0" "0::nat"
      "test_msg 8 0xdeadbeef 0 0 0 []" 1]
    C7_header_validation [of "test_env (test_msg 16 0xbeefdead 0 0 0 []) 100 0 0 0" "0::nat"
      "test_msg 16 0xbeefdead 0 0 0 []" 1]
    C7_header_validation [of "test_env (test_msg 16 0xdeadbeef 2 0 0 []) 100 0 0 0" "0::nat"
      "test_msg 16 0xdeadbeef 2 0 0 []" 1]
  by (simp add: test_env_def test_msg_def test_tbl_def OSSP_NR_OPCODES_def sizeof_cmd_def)

subsection \<open>Descriptor gating\<close>

text \<open>
  C6. For every request whose header has the right size and magic and an opcode below
  \<^verbatim>\<open>OSSP_NR_OPCODES\<close>: when the table says the opcode carries a descriptor and no control
  message came, when the table says it carries none and an \<^verbatim>\<open>SCM_RIGHTS\<close> message with a
  descriptor came, and when a control message of any other level or type came, the function
  returns \<open>-EINVAL\<close> (the code the source uses for a protocol violation) after the single
  \<^verbatim>\<open>recvmsg\<close>, so nothing is dispatched. In general the same holds whenever the descriptor
  left by the loop over the control messages is non-negative where the table expects none,
  or negative where it expects one; and a hook or an action is called only if that loop
  accepted every control message and the presence of the descriptor matches the table.
\<close>

theorem C6_descriptor_gating:
  assumes "recvmsg E w = (m, w1)" and "m_ret m = int sizeof_cmd"
    and "magic (m_cmd m) = OSSP_CMD_MAGIC E"
    and "unat (opcode (m_cmd m)) < OSSP_NR_OPCODES E"
  shows
    "(has_fd (ossp_arg_sizes E ! unat (opcode (m_cmd m))) \<and> m_cmsgs m = [] \<longrightarrow>
        ossp_slave_process_command E w = (- EINVAL, w1, [Ev_recvmsg m])) \<and>
     (\<forall>fd. \<not> has_fd (ossp_arg_sizes E ! unat (opcode (m_cmd m))) \<and> 0 \<le> fd \<and>
           m_cmsgs m = [\<lparr>cmsg_level = SOL_SOCKET, cmsg_type = SCM_RIGHTS, cmsg_data = fd\<rparr>] \<longrightarrow>
        ossp_slave_process_command E w = (- EINVAL, w1, [Ev_recvmsg m])) \<and>
     ((\<exists>c\<in>set (m_cmsgs m). cmsg_level c \<noteq> SOL_SOCKET \<or> cmsg_type c \<noteq> SCM_RIGHTS) \<longrightarrow>
        ossp_slave_process_command E w = (- EINVAL, w1, [Ev_recvmsg m])) \<and>
     (\<forall>fd. scan_cmsgs (m_cmsgs m) (- 1) = Some fd \<and>
           (0 \<le> fd) \<noteq> has_fd (ossp_arg_sizes E ! unat (opcode (m_cmd m))) \<longrightarrow>
        ossp_slave_process_command E w = (- EINVAL, w1, [Ev_recvmsg m])) \<and>
     ((\<exists>e\<in>set (snd (snd (ossp_slave_process_command E w))). is_hook e) \<longrightarrow>
        (\<exists>fd. scan_cmsgs (m_cmsgs m) (- 1) = Some fd \<and>
              (0 \<le> fd) = has_fd (ossp_arg_sizes E ! unat (opcode (m_cmd m)))))"
proof -
  let ?fail = "ossp_slave_process_command E w = (- EINVAL, w1, [Ev_recvmsg m])"
  let ?h = "has_fd (ossp_arg_sizes E ! unat (opcode (m_cmd m)))"
  have pos: "0 < m_ret m" using assms(2) by (simp add: sizeof_cmd_def)
  have none: "scan_cmsgs (m_cmsgs m) (- 1) = None \<Longrightarrow> ?fail"
  proof -
    assume "scan_cmsgs (m_cmsgs m) (- 1) = None"
    with assms(2,3) have "validate E m = Inl (- EINVAL)"
      by (simp add: validate_def sizeof_cmd_def)
    from process_validate_Inl [OF assms(1) this] show ?fail .
  qed
  have mism: "scan_cmsgs (m_cmsgs m) (- 1) = Some fd \<Longrightarrow> (0 \<le> fd) \<noteq> ?h \<Longrightarrow> ?fail" for fd
  proof -
    assume "scan_cmsgs (m_cmsgs m) (- 1) = Some fd" and "(0 \<le> fd) \<noteq> ?h"
    with assms(2,3,4) have "validate E m = Inl (- EINVAL)"
      by (simp add: validate_def sizeof_cmd_def)
    from process_validate_Inl [OF assms(1) this] show ?fail .
  qed
  have a: "?h \<and> m_cmsgs m = [] \<longrightarrow> ?fail"
    using mism [of "- 1"] by simp
  have b: "\<forall>fd. \<not> ?h \<and> 0 \<le> fd \<and>
           m_cmsgs m = [\<lparr>cmsg_level = SOL_SOCKET, cmsg_type = SCM_RIGHTS, cmsg_data = fd\<rparr>] \<longrightarrow>
           ?fail"
  proof (intro allI impI)
    fix fd
    assume h: "\<not> ?h \<and> 0 \<le> fd \<and>
           m_cmsgs m = [\<lparr>cmsg_level = SOL_SOCKET, cmsg_type = SCM_RIGHTS, cmsg_data = fd\<rparr>]"
    then have "scan_cmsgs (m_cmsgs m) (- 1) = Some fd" by simp
    from mism [OF this] h show ?fail by simp
  qed
  have c: "(\<exists>c\<in>set (m_cmsgs m). cmsg_level c \<noteq> SOL_SOCKET \<or> cmsg_type c \<noteq> SCM_RIGHTS) \<longrightarrow> ?fail"
  proof
    assume "\<exists>c\<in>set (m_cmsgs m). cmsg_level c \<noteq> SOL_SOCKET \<or> cmsg_type c \<noteq> SCM_RIGHTS"
    then have "scan_cmsgs (m_cmsgs m) (- 1) = None" by (simp only: scan_cmsgs_None_iff)
    from none [OF this] show ?fail .
  qed
  have d: "\<forall>fd. scan_cmsgs (m_cmsgs m) (- 1) = Some fd \<and> (0 \<le> fd) \<noteq> ?h \<longrightarrow> ?fail"
  proof (intro allI impI)
    fix fd
    assume "scan_cmsgs (m_cmsgs m) (- 1) = Some fd \<and> (0 \<le> fd) \<noteq> ?h"
    then show ?fail using mism [of fd] by simp
  qed
  have e: "(\<exists>e\<in>set (snd (snd (ossp_slave_process_command E w))). is_hook e) \<longrightarrow>
        (\<exists>fd. scan_cmsgs (m_cmsgs m) (- 1) = Some fd \<and> (0 \<le> fd) = ?h)"
  proof
    assume "\<exists>e\<in>set (snd (snd (ossp_slave_process_command E w))). is_hook e"
    from hook_in_trace_validate [OF assms(1) this] obtain fd where "validate E m = Inr fd" ..
    from validate_Inr_D [OF this] show "\<exists>fd. scan_cmsgs (m_cmsgs m) (- 1) = Some fd \<and> (0 \<le> fd) = ?h"
      by blast
  qed
  from a b c d e show ?thesis by (intro conjI)
qed

theorem C6_descriptor_gating_witness:
  "ossp_slave_process_command (test_env (test_msg 16 0xdeadbeef 1 0 0 []) 100 0 0 0) (0::nat)
     = (- EINVAL, 1, [Ev_recvmsg (test_msg 16 0xdeadbeef 1 0 0 [])]) \<and>
   ossp_slave_process_command
     (test_env (test_msg 16 0xdeadbeef 0 0 0
        [\<lparr>cmsg_level = SOL_SOCKET, cmsg_type = SCM_RIGHTS, cmsg_data = 5\<rparr>]) 100 0 0 0) (0::nat)
     = (- EINVAL, 1, [Ev_recvmsg (test_msg 16 0xdeadbeef 0 0 0
        [\<lparr>cmsg_level = SOL_SOCKET, cmsg_type = SCM_RIGHTS, cmsg_data = 5\<rparr>])]) \<and>
   ossp_slave_process_command
     (test_env (test_msg 16 0xdeadbeef 1 0 0
        [\<lparr>cmsg_level = SOL_SOCKET, cmsg_type = 2, cmsg_data = 5\<rparr>]) 100 0 0 0) (0::nat)
     = (- EINVAL, 1, [Ev_recvmsg (test_msg 16 0xdeadbeef 1 0 0
        [\<lparr>cmsg_level = SOL_SOCKET, cmsg_type = 2, cmsg_data = 5\<rparr>])])"
proof -
  let ?m1 = "test_msg 16 0xdeadbeef 1 0 0 []"
  let ?m2 = "test_msg 16 0xdeadbeef 0 0 0
        [\<lparr>cmsg_level = SOL_SOCKET, cmsg_type = SCM_RIGHTS, cmsg_data = 5\<rparr>]"
  let ?m3 = "test_msg 16 0xdeadbeef 1 0 0
        [\<lparr>cmsg_level = SOL_SOCKET, cmsg_type = 2, cmsg_data = 5\<rparr>]"
  have 1: "ossp_slave_process_command (test_env ?m1 100 0 0 0) (0::nat)
     = (- EINVAL, 1, [Ev_recvmsg ?m1])"
    using C6_descriptor_gating [of "test_env ?m1 100 0 0 0" "0::nat" ?m1 1]
    by (simp add: test_env_def test_msg_def test_tbl_def OSSP_NR_OPCODES_def sizeof_cmd_def)
  have 2: "ossp_slave_process_command (test_env ?m2 100 0 0 0) (0::nat)
     = (- EINVAL, 1, [Ev_recvmsg ?m2])"
    using C6_descriptor_gating [of "test_env ?m2 100 0 0 0" "0::nat" ?m2 1]
    by (simp add: test_env_def test_msg_def test_tbl_def OSSP_NR_OPCODES_def sizeof_cmd_def)
  have 3: "ossp_slave_process_command (test_env ?m3 100 0 0 0) (0::nat)
     = (- EINVAL, 1, [Ev_recvmsg ?m3])"
    using C6_descriptor_gating [of "test_env ?m3 100 0 0 0" "0::nat" ?m3 1]
    by (simp add: test_env_def test_msg_def test_tbl_def OSSP_NR_OPCODES_def sizeof_cmd_def
        SCM_RIGHTS_def)
  from 1 2 3 show ?thesis by (intro conjI)
qed

subsection \<open>Protocol and allocation errors\<close>

text \<open>
  C1 as stated fails: a request with a wrong magic makes the function return \<open>-EINVAL\<close>
  without any call of \<^verbatim>\<open>write_fill\<close>, so the peer receives no reply frame.
\<close>

theorem C1_counterexample:
  "fst (ossp_slave_process_command
          (test_env (test_msg 16 0xbeefdead 0 0 0 []) 100 0 0 0) (0::nat)) = - EINVAL \<and>
   \<not> (\<exists>e\<in>set (snd (snd (ossp_slave_process_command
          (test_env (test_msg 16 0xbeefdead 0 0 0 []) 100 0 0 0) (0::nat)))). is_write e)"
  by (simp add: run_defs)

text \<open>
  C1, amended. For every received command whose failure is a wrong header byte count, a
  magic mismatch, a control message of an unknown type, an out-of-range opcode or a
  descriptor-presence mismatch, the function returns \<open>-EINVAL\<close> to its caller having called
  nothing but \<^verbatim>\<open>recvmsg\<close>; when a call of \<^verbatim>\<open>ensure_sbuf_size\<close> fails it returns \<open>-ENOMEM\<close>
  having called nothing but \<^verbatim>\<open>recvmsg\<close> and \<^verbatim>\<open>ensure_sbuf_size\<close>. In both cases no reply
  frame is written to the channel.
\<close>

theorem C1_errors_return_without_reply:
  assumes "recvmsg E w = (m, w1)" and "0 < m_ret m"
  shows
    "((m_ret m \<noteq> int sizeof_cmd \<or> magic (m_cmd m) \<noteq> OSSP_CMD_MAGIC E \<or>
       (\<exists>c\<in>set (m_cmsgs m). cmsg_level c \<noteq> SOL_SOCKET \<or> cmsg_type c \<noteq> SCM_RIGHTS) \<or>
       OSSP_NR_OPCODES E \<le> unat (opcode (m_cmd m)) \<or>
       (\<exists>fd. scan_cmsgs (m_cmsgs m) (- 1) = Some fd \<and>
             (0 \<le> fd) \<noteq> has_fd (ossp_arg_sizes E ! unat (opcode (m_cmd m))))) \<longrightarrow>
      ossp_slave_process_command E w = (- EINVAL, w1, [Ev_recvmsg m])) \<and>
     (\<forall>fd w2 tr2. validate E m = Inr fd \<and>
         ensure_sbufs E (sbuf_sizes E m) w1 = (True, w2, tr2) \<longrightarrow>
         ossp_slave_process_command E w = (- ENOMEM, w2, Ev_recvmsg m # tr2) \<and>
         filter is_write tr2 = [])"
proof (intro conjI impI allI)
  assume "m_ret m \<noteq> int sizeof_cmd \<or> magic (m_cmd m) \<noteq> OSSP_CMD_MAGIC E \<or>
       (\<exists>c\<in>set (m_cmsgs m). cmsg_level c \<noteq> SOL_SOCKET \<or> cmsg_type c \<noteq> SCM_RIGHTS) \<or>
       OSSP_NR_OPCODES E \<le> unat (opcode (m_cmd m)) \<or>
       (\<exists>fd. scan_cmsgs (m_cmsgs m) (- 1) = Some fd \<and>
             (0 \<le> fd) \<noteq> has_fd (ossp_arg_sizes E ! unat (opcode (m_cmd m))))"
  then have "m_ret m \<noteq> int sizeof_cmd \<or> magic (m_cmd m) \<noteq> OSSP_CMD_MAGIC E \<or>
         scan_cmsgs (m_cmsgs m) (- 1) = None \<or>
         OSSP_NR_OPCODES E \<le> unat (opcode (m_cmd m)) \<or>
         (\<exists>fd. scan_cmsgs (m_cmsgs m) (- 1) = Some fd \<and>
               (0 \<le> fd) \<noteq> has_fd (ossp_arg_sizes E ! unat (opcode (m_cmd m))))"
    by (simp only: scan_cmsgs_None_iff)
  from process_validate_Inl [OF assms(1) validate_fails [OF assms(2) this]]
  show "ossp_slave_process_command E w = (- EINVAL, w1, [Ev_recvmsg m])" .
next
  fix fd w2 tr2
  assume h: "validate E m = Inr fd \<and> ensure_sbufs E (sbuf_sizes E m) w1 = (True, w2, tr2)"
  from h process_ensure_fails [OF assms(1)]
  show "ossp_slave_process_command E w = (- ENOMEM, w2, Ev_recvmsg m # tr2)" by blast
  from h have "ensure_sbufs E (sbuf_sizes E m) w1 = (True, w2, tr2)" by simp
  from filter_ensure_sbufs [OF this] show "filter is_write tr2 = []" by simp
qed

theorem C1_errors_return_without_reply_witness:
  "ossp_slave_process_command (test_env (test_msg 16 0xbeefdead 0 0 0 []) 100 0 0 0) (0::nat)
     = (- EINVAL, 1, [Ev_recvmsg (test_msg 16 0xbeefdead 0 0 0 [])]) \<and>
   ossp_slave_process_command (test_env (test_msg 16 0xdeadbeef 0 0 0 []) 2 0 0 0) (0::nat)
     = (- ENOMEM, 2, [Ev_recvmsg (test_msg 16 0xdeadbeef 0 0 0 []),
                      Ev_ensure_sbuf_size Carg_sbuf 4 (- ENOMEM)])"
proof -
  let ?m1 = "test_msg 16 0xbeefdead 0 0 0 []"
  let ?m2 = "test_msg 16 0xdeadbeef 0 0 0 []"
  have 1: "ossp_slave_process_command (test_env ?m1 100 0 0 0) (0::nat)
     = (- EINVAL, 1, [Ev_recvmsg ?m1])"
    using C1_errors_return_without_reply [of "test_env ?m1 100 0 0 0" "0::nat" ?m1 1]
    by (simp add: test_env_def test_msg_def)
  have v: "validate (test_env ?m2 2 0 0 0) ?m2 = Inr (- 1)"
    by (simp add: run_defs)
  have e: "ensure_sbufs (test_env ?m2 2 0 0 0) (sbuf_sizes (test_env ?m2 2 0 0 0) ?m2) (1::nat)
     = (True, 2, [Ev_ensure_sbuf_size Carg_sbuf 4 (- ENOMEM)])"
    by (simp add: run_defs)
  have r: "recvmsg (test_env ?m2 2 0 0 0) (0::nat) = (?m2, 1)" by (simp add: test_env_def)
  have p: "0 < m_ret ?m2" by (simp add: test_msg_def)
  from C1_errors_return_without_reply [OF r p] v e
  have 2: "ossp_slave_process_command (test_env ?m2 2 0 0 0) (0::nat)
     = (- ENOMEM, 2, [Ev_recvmsg ?m2, Ev_ensure_sbuf_size Carg_sbuf 4 (- ENOMEM)])"
    by blast
  from 1 2 show ?thesis by (intro conjI)
qed

subsection \<open>The reply\<close>

text \<open>
  C5. For every command that reaches the reply with a negative result code \<open>ret\<close>: the one
  reply header handed to \<^verbatim>\<open>write_fill\<close> has a \<open>dout_size\<close> of 0 (its result is \<open>ret\<close> as the
  32-bit field holds it), and the two other calls of \<^verbatim>\<open>write_fill\<close> have length 0, so no
  byte of the fixed argument out or of the data out is put on the wire, whatever the
  action stored in \<open>dout_size\<close> (the \<open>dsz\<close> below) or in its buffers. With the results of
  these calls named, the return value, the world left behind and the calls made are
  exactly the ones below: the world is the one the last attempted \<^verbatim>\<open>write_fill\<close> left.
\<close>

theorem C5_error_suppresses_payload:
  assumes "prepare E w = Inr (L, w1, tr1)" and "invoke E L w1 = (ret, dsz, w2, tr2)"
    and "ret < 0"
    and "write_fill E (Reply \<lparr>r_magic = OSSP_REPLY_MAGIC E, r_result = int32_of ret,
                              r_dout_size = 0\<rparr>) sizeof_reply w2 = (rc0, w3)"
    and "write_fill E (Ptr (v_rarg L)) 0 w3 = (rc1, w4)"
    and "write_fill E (Ptr (v_dout L)) 0 w4 = (rc2, w5)"
  shows "replies (snd (snd (ossp_slave_process_command E w))) =
           [\<lparr>r_magic = OSSP_REPLY_MAGIC E, r_result = int32_of ret, r_dout_size = 0\<rparr>] \<and>
         map r_dout_size (replies (snd (snd (ossp_slave_process_command E w)))) = [0] \<and>
         sum_list (map snd (payload_writes (snd (snd (ossp_slave_process_command E w))))) = 0 \<and>
         ossp_slave_process_command E w =
           (if rc0 < 0
            then (- EIO, w3,
                  tr1 @ tr2 @
                  [Ev_write_fill (Reply \<lparr>r_magic = OSSP_REPLY_MAGIC E,
                     r_result = int32_of ret, r_dout_size = 0\<rparr>) sizeof_reply rc0])
            else if rc1 < 0
            then (- EIO, w4,
                  tr1 @ tr2 @
                  [Ev_write_fill (Reply \<lparr>r_magic = OSSP_REPLY_MAGIC E,
                     r_result = int32_of ret, r_dout_size = 0\<rparr>) sizeof_reply rc0,
                   Ev_write_fill (Ptr (v_rarg L)) 0 rc1])
            else (if rc2 < 0 then - EIO else 1, w5,
                  tr1 @ tr2 @
                  [Ev_write_fill (Reply \<lparr>r_magic = OSSP_REPLY_MAGIC E,
                     r_result = int32_of ret, r_dout_size = 0\<rparr>) sizeof_reply rc0,
                   Ev_write_fill (Ptr (v_rarg L)) 0 rc1,
                   Ev_write_fill (Ptr (v_dout L)) 0 rc2]))"
proof -
  from assms(3) have z: "reply_rarg_size L ret = 0" "reply_dout_size ret dsz = 0"
    "mk_reply E ret dsz =
       \<lparr>r_magic = OSSP_REPLY_MAGIC E, r_result = int32_of ret, r_dout_size = 0\<rparr>"
    by (simp_all add: reply_rarg_size_def reply_dout_size_def mk_reply_def)
  from assms(4,5,6) z
  have a: "write_fill E (Reply (mk_reply E ret dsz)) sizeof_reply w2 = (rc0, w3)"
    "write_fill E (Ptr (v_rarg L)) (reply_rarg_size L ret) w3 = (rc1, w4)"
    "write_fill E (Ptr (v_dout L)) (reply_dout_size ret dsz) w4 = (rc2, w5)"
    by simp_all
  note r = process_reply_stage [OF assms(1,2) a]
  note b = before_reply_reading(1,2) [OF assms(1,2)]
  show ?thesis
  proof (cases "rc0 < 0")
    case True
    with r b z show ?thesis by simp
  next
    case n0: False
    show ?thesis
    proof (cases "rc1 < 0")
      case True
      with n0 r b z show ?thesis by simp
    next
      case n1: False
      with n0 r b z show ?thesis by simp
    qed
  qed
qed

theorem C5_error_suppresses_payload_witness:
  "ossp_slave_process_command (wire_env wire_msg 0 (- 7)) chan0 =
     (1,
      \<lparr>sent = [(Reply \<lparr>r_magic = 0xbeefdead, r_result = - 7, r_dout_size = 0\<rparr>, 12),
               (Ptr (Buf Rarg_sbuf), 0), (Ptr (Buf Dout_sbuf), 0)],
       pre_calls = 1, action_calls = 1, post_calls = 1\<rparr>,
      wire_prepared @
      [Ev_action_pre 0,
       Ev_action 0 (Buf Carg_sbuf) (Buf Din_sbuf) 3 (Buf Rarg_sbuf) (Buf Dout_sbuf) 10 (- 1)
         (- 7) 5,
       Ev_action_post] @
      [Ev_write_fill (Reply \<lparr>r_magic = 0xbeefdead, r_result = - 7, r_dout_size = 0\<rparr>) 12 0,
       Ev_write_fill (Ptr (Buf Rarg_sbuf)) 0 0,
       Ev_write_fill (Ptr (Buf Dout_sbuf)) 0 0])"
proof -
  let ?X = "wire_env wire_msg 0 (- 7)"
  have p: "prepare ?X chan0 = Inr (wire_locals, chan0, wire_prepared)"
    by (simp add: wire_defs run_defs)
  have i: "invoke ?X wire_locals chan0 =
     (- 7, 5, chan0\<lparr>pre_calls := 1, action_calls := 1, post_calls := 1\<rparr>,
      [Ev_action_pre 0,
       Ev_action 0 (Buf Carg_sbuf) (Buf Din_sbuf) 3 (Buf Rarg_sbuf) (Buf Dout_sbuf) 10 (- 1)
         (- 7) 5,
       Ev_action_post])"
    by (simp add: wire_defs run_defs)
  have a: "write_fill ?X s n v = (0, v\<lparr>sent := sent v @ [(s, n)]\<rparr>)" for s n v
    by (simp add: wire_env_def)
  from C5_error_suppresses_payload [OF p i _ a a a, THEN conjunct2, THEN conjunct2,
      THEN conjunct2]
  show ?thesis by (simp add: wire_defs run_defs)
qed



text \<open>
  C8. For every command that reaches the reply with a non-negative result code: the
  \<open>dout_size\<close> of the reply header is the value \<open>dsz\<close> the action left in \<open>dout_size\<close>
  (the requested value when no action ran), stored in the 32-bit field, and it is that
  number whenever it fits the field, in particular whenever the action did not increase
  it. The calls of \<^verbatim>\<open>write_fill\<close> are, in this order, the reply header with
  \<^verbatim>\<open>sizeof(reply)\<close>, the fixed argument out with its length from the table, and the data out
  with length \<open>dsz\<close>; a length of zero for the fixed argument out goes with the \<^verbatim>\<open>NULL\<close>
  pointer, so such a call carries no byte. A call that returns a negative value ends the
  sequence, and the function then returns \<open>-EIO\<close>; otherwise it returns 1. The world the
  function leaves is the one the last attempted \<^verbatim>\<open>write_fill\<close> left, each call having
  started in the world the one before it left, so what is on the wire is what these calls
  put there and nothing else.
\<close>

theorem C8_success_reply:
  assumes "prepare E w = Inr (L, w1, tr1)" and "invoke E L w1 = (ret, dsz, w2, tr2)"
    and "0 \<le> ret"
    and "write_fill E (Reply (mk_reply E ret dsz)) sizeof_reply w2 = (rc0, w3)"
    and "write_fill E (Ptr (v_rarg L)) (v_rarg_size L) w3 = (rc1, w4)"
    and "write_fill E (Ptr (v_dout L)) dsz w4 = (rc2, w5)"
  shows
    "mk_reply E ret dsz =
       \<lparr>r_magic = OSSP_REPLY_MAGIC E, r_result = int32_of ret, r_dout_size = of_nat dsz\<rparr> \<and>
     unat (r_dout_size (mk_reply E ret dsz)) = dsz mod 2 ^ 32 \<and>
     (dsz < 2 ^ 32 \<longrightarrow> unat (r_dout_size (mk_reply E ret dsz)) = dsz) \<and>
     (dsz \<le> v_dout_size L \<longrightarrow> unat (r_dout_size (mk_reply E ret dsz)) = dsz) \<and>
     filter is_write (snd (snd (ossp_slave_process_command E w))) =
       Ev_write_fill (Reply (mk_reply E ret dsz)) sizeof_reply rc0 #
       (if rc0 < 0 then []
        else Ev_write_fill (Ptr (v_rarg L)) (v_rarg_size L) rc1 #
             (if rc1 < 0 then [] else [Ev_write_fill (Ptr (v_dout L)) dsz rc2])) \<and>
     v_rarg L = (if v_rarg_size L = 0 then Null else Buf Rarg_sbuf) \<and>
     v_dout L = (if v_dout_size L = 0 then Null else Buf Dout_sbuf) \<and>
     fst (ossp_slave_process_command E w) =
       (if rc0 < 0 \<or> rc1 < 0 \<or> rc2 < 0 then - EIO else 1) \<and>
     ossp_slave_process_command E w =
       (if rc0 < 0
        then (- EIO, w3,
              tr1 @ tr2 @ [Ev_write_fill (Reply (mk_reply E ret dsz)) sizeof_reply rc0])
        else if rc1 < 0
        then (- EIO, w4,
              tr1 @ tr2 @ [Ev_write_fill (Reply (mk_reply E ret dsz)) sizeof_reply rc0,
                           Ev_write_fill (Ptr (v_rarg L)) (v_rarg_size L) rc1])
        else (if rc2 < 0 then - EIO else 1, w5,
              tr1 @ tr2 @ [Ev_write_fill (Reply (mk_reply E ret dsz)) sizeof_reply rc0,
                           Ev_write_fill (Ptr (v_rarg L)) (v_rarg_size L) rc1,
                           Ev_write_fill (Ptr (v_dout L)) dsz rc2]))"
proof -
  from assms(3) have z: "reply_rarg_size L ret = v_rarg_size L" "reply_dout_size ret dsz = dsz"
    by (simp_all add: reply_rarg_size_def reply_dout_size_def)
  from assms(3) have mk: "mk_reply E ret dsz =
       \<lparr>r_magic = OSSP_REPLY_MAGIC E, r_result = int32_of ret, r_dout_size = of_nat dsz\<rparr>"
    by (simp add: mk_reply_def)
  note loc = prepare_Inr_locals [OF assms(1)]
  have md: "unat (r_dout_size (mk_reply E ret dsz)) = dsz mod 2 ^ 32"
    by (simp add: mk unat_of_nat)
  have fit: "dsz < 2 ^ 32 \<longrightarrow> unat (r_dout_size (mk_reply E ret dsz)) = dsz"
    by (simp add: mk unat_of_nat)
  have len: "dsz \<le> v_dout_size L \<longrightarrow> unat (r_dout_size (mk_reply E ret dsz)) = dsz"
  proof
    assume le: "dsz \<le> v_dout_size L"
    have "unat (dout_size (v_cmd L)) < 2 ^ 32"
      using unsigned_less [of "dout_size (v_cmd L)", where ?'a = nat] by simp
    with le loc have "dsz < 2 ^ 32" by simp
    then show "unat (r_dout_size (mk_reply E ret dsz)) = dsz"
      by (simp add: mk unat_of_nat)
  qed
  from assms(4,5,6) z
  have a: "write_fill E (Reply (mk_reply E ret dsz)) sizeof_reply w2 = (rc0, w3)"
    "write_fill E (Ptr (v_rarg L)) (reply_rarg_size L ret) w3 = (rc1, w4)"
    "write_fill E (Ptr (v_dout L)) (reply_dout_size ret dsz) w4 = (rc2, w5)"
    by simp_all
  note r = process_reply_stage [OF assms(1,2) a]
  note b = before_reply_reading(4) [OF assms(1,2)]
  have wr: "filter is_write (snd (snd (ossp_slave_process_command E w))) =
       Ev_write_fill (Reply (mk_reply E ret dsz)) sizeof_reply rc0 #
       (if rc0 < 0 then []
        else Ev_write_fill (Ptr (v_rarg L)) (v_rarg_size L) rc1 #
             (if rc1 < 0 then [] else [Ev_write_fill (Ptr (v_dout L)) dsz rc2]))"
    unfolding r using b z by simp
  have rv: "fst (ossp_slave_process_command E w) =
       (if rc0 < 0 \<or> rc1 < 0 \<or> rc2 < 0 then - EIO else 1)"
    unfolding r by simp
  have all: "ossp_slave_process_command E w =
       (if rc0 < 0
        then (- EIO, w3,
              tr1 @ tr2 @ [Ev_write_fill (Reply (mk_reply E ret dsz)) sizeof_reply rc0])
        else if rc1 < 0
        then (- EIO, w4,
              tr1 @ tr2 @ [Ev_write_fill (Reply (mk_reply E ret dsz)) sizeof_reply rc0,
                           Ev_write_fill (Ptr (v_rarg L)) (v_rarg_size L) rc1])
        else (if rc2 < 0 then - EIO else 1, w5,
              tr1 @ tr2 @ [Ev_write_fill (Reply (mk_reply E ret dsz)) sizeof_reply rc0,
                           Ev_write_fill (Ptr (v_rarg L)) (v_rarg_size L) rc1,
                           Ev_write_fill (Ptr (v_dout L)) dsz rc2]))"
    unfolding r using z by simp
  from mk md fit len wr loc rv all show ?thesis by (intro conjI) simp_all
qed

theorem C8_success_reply_witness:
  "ossp_slave_process_command (wire_env wire_msg 0 0) chan0 =
     (1,
      \<lparr>sent = [(Reply \<lparr>r_magic = 0xbeefdead, r_result = 0, r_dout_size = 5\<rparr>, 12),
               (Ptr (Buf Rarg_sbuf), 8), (Ptr (Buf Dout_sbuf), 5)],
       pre_calls = 1, action_calls = 1, post_calls = 1\<rparr>,
      wire_prepared @
      [Ev_action_pre 0,
       Ev_action 0 (Buf Carg_sbuf) (Buf Din_sbuf) 3 (Buf Rarg_sbuf) (Buf Dout_sbuf) 10 (- 1)
         0 5,
       Ev_action_post] @
      [Ev_write_fill (Reply \<lparr>r_magic = 0xbeefdead, r_result = 0, r_dout_size = 5\<rparr>) 12 0,
       Ev_write_fill (Ptr (Buf Rarg_sbuf)) 8 0,
       Ev_write_fill (Ptr (Buf Dout_sbuf)) 5 0])"
proof -
  let ?X = "wire_env wire_msg 0 0"
  have p: "prepare ?X chan0 = Inr (wire_locals, chan0, wire_prepared)"
    by (simp add: wire_defs run_defs)
  have i: "invoke ?X wire_locals chan0 =
     (0, 5, chan0\<lparr>pre_calls := 1, action_calls := 1, post_calls := 1\<rparr>,
      [Ev_action_pre 0,
       Ev_action 0 (Buf Carg_sbuf) (Buf Din_sbuf) 3 (Buf Rarg_sbuf) (Buf Dout_sbuf) 10 (- 1)
         0 5,
       Ev_action_post])"
    by (simp add: wire_defs run_defs)
  have a: "write_fill ?X s n v = (0, v\<lparr>sent := sent v @ [(s, n)]\<rparr>)" for s n v
    by (simp add: wire_env_def)
  from C8_success_reply [OF p i _ a a a, THEN conjunct2, THEN conjunct2, THEN conjunct2,
      THEN conjunct2, THEN conjunct2, THEN conjunct2, THEN conjunct2, THEN conjunct2]
  show ?thesis by (simp add: wire_defs run_defs)
qed

subsection \<open>The action between its hooks\<close>

text \<open>
  C4. For every command that reaches the action lookup with a registered action \<open>f\<close>: if
  the pre hook returns a nonzero value \<open>r\<close>, the pre hook is the only hook or action
  called, \<open>r\<close> is the result code, the reply is sent from the world the pre hook left, and
  the reply carries \<open>r\<close> as the 32-bit field holds it, which is \<open>r\<close> itself for every value
  of a C \<^verbatim>\<open>int\<close>. If the pre hook returns 0, the calls of hooks and action are exactly the
  pre hook, the action and then the post hook once, whatever the action returns: the
  action runs in the world the pre hook left, the post hook is applied once to the world
  the action left, and the reply is sent from the world the post hook left.
\<close>

theorem C4_bracket:
  assumes "prepare E w = Inr (L, w1, tr1)"
    and "action_fn_tbl E (unat (opcode (v_cmd L))) = Some f"
    and "action_pre_fn E w1 = (r, w2)"
    and "f (opcode (v_cmd L)) (v_carg L) (v_din L) (v_din_size L) (v_rarg L) (v_dout L)
           (v_dout_size L) (v_fd L) w2 = ((ret, dsz), w3)"
  shows
    "(r \<noteq> 0 \<longrightarrow>
        invoke E L w1 = (r, v_dout_size L, w2, [Ev_action_pre r]) \<and>
        ossp_slave_process_command E w =
          (case send_reply E L r (v_dout_size L) w2 of
             (rv, w4, tr3) \<Rightarrow> (rv, w4, tr1 @ [Ev_action_pre r] @ tr3)) \<and>
        filter is_hook (snd (snd (ossp_slave_process_command E w))) = [Ev_action_pre r] \<and>
        map r_result (replies (snd (snd (ossp_slave_process_command E w)))) = [int32_of r] \<and>
        (- (2 ^ 31) \<le> r \<and> r < 2 ^ 31 \<longrightarrow>
           map r_result (replies (snd (snd (ossp_slave_process_command E w)))) = [r])) \<and>
     (r = 0 \<longrightarrow>
        invoke E L w1 =
          (ret, dsz, action_post_fn E w3,
           [Ev_action_pre 0,
            Ev_action (opcode (v_cmd L)) (v_carg L) (v_din L) (v_din_size L) (v_rarg L)
              (v_dout L) (v_dout_size L) (v_fd L) ret dsz,
            Ev_action_post]) \<and>
        ossp_slave_process_command E w =
          (case send_reply E L ret dsz (action_post_fn E w3) of
             (rv, w4, tr3) \<Rightarrow>
               (rv, w4,
                tr1 @
                [Ev_action_pre 0,
                 Ev_action (opcode (v_cmd L)) (v_carg L) (v_din L) (v_din_size L) (v_rarg L)
                   (v_dout L) (v_dout_size L) (v_fd L) ret dsz,
                 Ev_action_post] @ tr3)) \<and>
        filter is_hook (snd (snd (ossp_slave_process_command E w))) =
          [Ev_action_pre 0,
           Ev_action (opcode (v_cmd L)) (v_carg L) (v_din L) (v_din_size L) (v_rarg L)
             (v_dout L) (v_dout_size L) (v_fd L) ret dsz,
           Ev_action_post])"
proof -
  let ?act = "Ev_action (opcode (v_cmd L)) (v_carg L) (v_din L) (v_din_size L) (v_rarg L)
             (v_dout L) (v_dout_size L) (v_fd L) ret dsz"
  define ret' where "ret' = (if r = 0 then ret else r)"
  define dsz' where "dsz' = (if r = 0 then dsz else v_dout_size L)"
  define w' where "w' = (if r = 0 then action_post_fn E w3 else w2)"
  define tr2 where "tr2 = (if r = 0 then [Ev_action_pre r, ?act, Ev_action_post]
                           else [Ev_action_pre r])"
  from assms(2,3,4) have i: "invoke E L w1 = (ret', dsz', w', tr2)"
    by (simp add: invoke_def ret'_def dsz'_def w'_def tr2_def)
  from assms(1) i have pc: "ossp_slave_process_command E w =
     (case send_reply E L ret' dsz' w' of (rv, w4, tr3) \<Rightarrow> (rv, w4, tr1 @ tr2 @ tr3))"
    by (simp add: ossp_slave_process_command_def)
  obtain rv w4 tr3 where s: "send_reply E L ret' dsz' w' = (rv, w4, tr3)"
    by (cases "send_reply E L ret' dsz' w'")
  from process_prepare_Inr [OF assms(1) i s]
  have tr: "snd (snd (ossp_slave_process_command E w)) = tr1 @ tr2 @ tr3" by simp
  from prepare_quiet [of E w _ _ tr1 L] assms(1) have q1: "filter is_hook tr1 = []" by simp
  from send_reply_events [OF s] have q3: "filter is_hook tr3 = []" by simp
  have hooks: "filter is_hook (snd (snd (ossp_slave_process_command E w))) = tr2"
    using tr q1 q3 by (simp add: tr2_def)
  from reply_stage_summary [OF assms(1) i]
  have "replies (snd (snd (ossp_slave_process_command E w))) = [mk_reply E ret' dsz']" by simp
  then have res: "map r_result (replies (snd (snd (ossp_slave_process_command E w)))) =
      [int32_of ret']"
    by (simp add: mk_reply_def Let_def)
  show ?thesis
  proof (cases "r = 0")
    case True
    with i pc hooks show ?thesis by (simp add: ret'_def dsz'_def w'_def tr2_def)
  next
    case False
    with i pc hooks res int32_of_id [of r] show ?thesis
      by (simp add: ret'_def dsz'_def w'_def tr2_def)
  qed
qed

theorem C4_bracket_witness:
  "ossp_slave_process_command (wire_env wire_msg 0 (- 7)) chan0 =
     (1,
      \<lparr>sent = [(Reply \<lparr>r_magic = 0xbeefdead, r_result = - 7, r_dout_size = 0\<rparr>, 12),
               (Ptr (Buf Rarg_sbuf), 0), (Ptr (Buf Dout_sbuf), 0)],
       pre_calls = 1, action_calls = 1, post_calls = 1\<rparr>,
      wire_prepared @
      [Ev_action_pre 0,
       Ev_action 0 (Buf Carg_sbuf) (Buf Din_sbuf) 3 (Buf Rarg_sbuf) (Buf Dout_sbuf) 10 (- 1)
         (- 7) 5,
       Ev_action_post] @
      [Ev_write_fill (Reply \<lparr>r_magic = 0xbeefdead, r_result = - 7, r_dout_size = 0\<rparr>) 12 0,
       Ev_write_fill (Ptr (Buf Rarg_sbuf)) 0 0,
       Ev_write_fill (Ptr (Buf Dout_sbuf)) 0 0]) \<and>
   ossp_slave_process_command (wire_env wire_msg (- 16) (- 7)) chan0 =
     (1,
      \<lparr>sent = [(Reply \<lparr>r_magic = 0xbeefdead, r_result = - 16, r_dout_size = 0\<rparr>, 12),
               (Ptr (Buf Rarg_sbuf), 0), (Ptr (Buf Dout_sbuf), 0)],
       pre_calls = 1, action_calls = 0, post_calls = 0\<rparr>,
      wire_prepared @
      [Ev_action_pre (- 16)] @
      [Ev_write_fill (Reply \<lparr>r_magic = 0xbeefdead, r_result = - 16, r_dout_size = 0\<rparr>) 12 0,
       Ev_write_fill (Ptr (Buf Rarg_sbuf)) 0 0,
       Ev_write_fill (Ptr (Buf Dout_sbuf)) 0 0])"
proof -
  let ?X = "wire_env wire_msg 0 (- 7)"
  let ?Y = "wire_env wire_msg (- 16) (- 7)"
  have p: "prepare ?X chan0 = Inr (wire_locals, chan0, wire_prepared)"
    by (simp add: wire_defs run_defs)
  have f: "action_fn_tbl ?X (unat (opcode (v_cmd wire_locals))) = Some (wire_action (- 7))"
    by (simp add: wire_defs)
  have pre: "action_pre_fn ?X chan0 = (0, chan0\<lparr>pre_calls := 1\<rparr>)"
    by (simp add: wire_defs)
  have act: "wire_action (- 7) (opcode (v_cmd wire_locals)) (v_carg wire_locals)
       (v_din wire_locals) (v_din_size wire_locals) (v_rarg wire_locals) (v_dout wire_locals)
       (v_dout_size wire_locals) (v_fd wire_locals) v =
     ((- 7, 5), v\<lparr>action_calls := Suc (action_calls v)\<rparr>)" for v
    by (simp add: wire_defs)
  from C4_bracket [OF p f pre act, THEN conjunct2]
  have 1: "ossp_slave_process_command ?X chan0 =
     (1,
      \<lparr>sent = [(Reply \<lparr>r_magic = 0xbeefdead, r_result = - 7, r_dout_size = 0\<rparr>, 12),
               (Ptr (Buf Rarg_sbuf), 0), (Ptr (Buf Dout_sbuf), 0)],
       pre_calls = 1, action_calls = 1, post_calls = 1\<rparr>,
      wire_prepared @
      [Ev_action_pre 0,
       Ev_action 0 (Buf Carg_sbuf) (Buf Din_sbuf) 3 (Buf Rarg_sbuf) (Buf Dout_sbuf) 10 (- 1)
         (- 7) 5,
       Ev_action_post] @
      [Ev_write_fill (Reply \<lparr>r_magic = 0xbeefdead, r_result = - 7, r_dout_size = 0\<rparr>) 12 0,
       Ev_write_fill (Ptr (Buf Rarg_sbuf)) 0 0,
       Ev_write_fill (Ptr (Buf Dout_sbuf)) 0 0])"
    by (simp add: wire_defs run_defs)
  have p': "prepare ?Y chan0 = Inr (wire_locals, chan0, wire_prepared)"
    by (simp add: wire_defs run_defs)
  have f': "action_fn_tbl ?Y (unat (opcode (v_cmd wire_locals))) = Some (wire_action (- 7))"
    by (simp add: wire_defs)
  have pre': "action_pre_fn ?Y chan0 = (- 16, chan0\<lparr>pre_calls := 1\<rparr>)"
    by (simp add: wire_defs)
  from C4_bracket [OF p' f' pre' act, THEN conjunct1]
  have 2: "ossp_slave_process_command ?Y chan0 =
     (1,
      \<lparr>sent = [(Reply \<lparr>r_magic = 0xbeefdead, r_result = - 16, r_dout_size = 0\<rparr>, 12),
               (Ptr (Buf Rarg_sbuf), 0), (Ptr (Buf Dout_sbuf), 0)],
       pre_calls = 1, action_calls = 0, post_calls = 0\<rparr>,
      wire_prepared @
      [Ev_action_pre (- 16)] @
      [Ev_write_fill (Reply \<lparr>r_magic = 0xbeefdead, r_result = - 16, r_dout_size = 0\<rparr>) 12 0,
       Ev_write_fill (Ptr (Buf Rarg_sbuf)) 0 0,
       Ev_write_fill (Ptr (Buf Dout_sbuf)) 0 0])"
    by (simp add: wire_defs run_defs)
  from 1 2 show ?thesis by (intro conjI)
qed

subsection \<open>The sizes declared by the peer\<close>

text \<open>
  C3 as stated fails: a request that declares the largest \<open>din_size\<close> the field can hold,
  4294967295, is not rejected and not capped. The function asks \<^verbatim>\<open>ensure_sbuf_size\<close> for
  that many bytes and, where the allocator grants them, asks \<^verbatim>\<open>read_fill\<close> for all of them
  and completes the command.
\<close>

theorem C3_counterexample:
  "Ev_ensure_sbuf_size Din_sbuf 4294967295 0 \<in> set (snd (snd (ossp_slave_process_command
       (test_env (test_msg 16 0xdeadbeef 0 0xFFFFFFFF 0 []) 4294967295 0 0 0) (0::nat)))) \<and>
   Ev_read_fill (Buf Din_sbuf) 4294967295 0 \<in> set (snd (snd (ossp_slave_process_command
       (test_env (test_msg 16 0xdeadbeef 0 0xFFFFFFFF 0 []) 4294967295 0 0 0) (0::nat)))) \<and>
   fst (ossp_slave_process_command
       (test_env (test_msg 16 0xdeadbeef 0 0xFFFFFFFF 0 []) 4294967295 0 0 0) (0::nat)) = 1"
  by (simp add: run_defs)

text \<open>
  C3, amended. For every received command that passes validation, \<open>din_size\<close> and
  \<open>dout_size\<close> are not checked against any bound: the calls of \<^verbatim>\<open>ensure_sbuf_size\<close> are made
  with the table's sizes and the declared sizes unchanged, in the order carg, din, rarg,
  dout, and all of them come before any other call but the \<^verbatim>\<open>recvmsg\<close>. If one of them
  fails the function returns \<open>-ENOMEM\<close> having made no call of \<^verbatim>\<open>read_fill\<close>. If all four
  succeed, \<open>din_size\<close> is not zero and the fixed argument, if any, was read, the function
  calls \<^verbatim>\<open>read_fill\<close> for exactly the declared \<open>din_size\<close> bytes.
\<close>

theorem C3_sizes_not_bounded:
  assumes "recvmsg E w = (m, w1)" and "validate E m = Inr fd"
    and "ensure_sbufs E (sbuf_sizes E m) w1 = (failed, w2, tr2)"
  shows
    "ensure_calls (snd (snd (ossp_slave_process_command E w))) =
       take (length tr2) (sbuf_sizes E m) \<and>
     (\<exists>rest. snd (snd (ossp_slave_process_command E w)) = Ev_recvmsg m # tr2 @ rest \<and>
             filter is_ensure rest = []) \<and>
     filter is_read tr2 = [] \<and>
     (failed \<longrightarrow> ossp_slave_process_command E w = (- ENOMEM, w2, Ev_recvmsg m # tr2)) \<and>
     (\<not> failed \<longrightarrow>
        ensure_calls (snd (snd (ossp_slave_process_command E w))) = sbuf_sizes E m) \<and>
     (\<not> failed \<and> unat (din_size (m_cmd m)) \<noteq> 0 \<and>
      (carg_size (ossp_arg_sizes E ! unat (opcode (m_cmd m))) = 0 \<or>
       0 \<le> fst (read_fill E (Buf Carg_sbuf)
                  (carg_size (ossp_arg_sizes E ! unat (opcode (m_cmd m)))) w2)) \<longrightarrow>
        (\<exists>rc. Ev_read_fill (Buf Din_sbuf) (unat (din_size (m_cmd m))) rc
               \<in> set (snd (snd (ossp_slave_process_command E w)))))"
proof -
  let ?tr = "snd (snd (ossp_slave_process_command E w))"
  from process_after_ensure [OF assms] obtain rest where
    tr: "?tr = Ev_recvmsg m # tr2 @ rest" and ne: "filter is_ensure rest = []"
    and din: "\<not> failed \<and> unat (din_size (m_cmd m)) \<noteq> 0 \<and>
            (carg_size (ossp_arg_sizes E ! unat (opcode (m_cmd m))) = 0 \<or>
             0 \<le> fst (read_fill E (Buf Carg_sbuf)
                        (carg_size (ossp_arg_sizes E ! unat (opcode (m_cmd m)))) w2)) \<longrightarrow>
            (\<exists>rc. Ev_read_fill (Buf Din_sbuf) (unat (din_size (m_cmd m))) rc \<in> set rest)"
    by blast
  note c = ensure_sbufs_calls [OF assms(3)]
  have calls: "ensure_calls ?tr = ensure_calls tr2"
    unfolding tr using no_ensure_calls [OF ne] by (simp add: ensure_calls_append)
  have 1: "ensure_calls ?tr = take (length tr2) (sbuf_sizes E m)"
    using calls c by simp
  have 2: "\<exists>rest. ?tr = Ev_recvmsg m # tr2 @ rest \<and> filter is_ensure rest = []"
    using tr ne by blast
  have 3: "filter is_read tr2 = []"
    using filter_ensure_sbufs [OF assms(3)] by simp
  have 4: "failed \<longrightarrow> ossp_slave_process_command E w = (- ENOMEM, w2, Ev_recvmsg m # tr2)"
    using process_ensure_fails [OF assms(1,2)] assms(3) by simp
  have 5: "\<not> failed \<longrightarrow> ensure_calls ?tr = sbuf_sizes E m"
    using 1 c by simp
  have 6: "\<not> failed \<and> unat (din_size (m_cmd m)) \<noteq> 0 \<and>
      (carg_size (ossp_arg_sizes E ! unat (opcode (m_cmd m))) = 0 \<or>
       0 \<le> fst (read_fill E (Buf Carg_sbuf)
                  (carg_size (ossp_arg_sizes E ! unat (opcode (m_cmd m)))) w2)) \<longrightarrow>
        (\<exists>rc. Ev_read_fill (Buf Din_sbuf) (unat (din_size (m_cmd m))) rc \<in> set ?tr)"
    using din unfolding tr by auto
  from 1 2 3 4 5 6 show ?thesis by (intro conjI)
qed

theorem C3_sizes_not_bounded_witness:
  "(\<exists>rc. Ev_read_fill (Buf Din_sbuf) 4294967295 rc \<in> set (snd (snd (ossp_slave_process_command
       (test_env (test_msg 16 0xdeadbeef 0 0xFFFFFFFF 0 []) 4294967295 0 0 0) (0::nat))))) \<and>
   ensure_calls (snd (snd (ossp_slave_process_command
       (test_env (test_msg 16 0xdeadbeef 0 0xFFFFFFFF 0 []) 4294967295 0 0 0) (0::nat)))) =
     [(Carg_sbuf, 4), (Din_sbuf, 4294967295), (Rarg_sbuf, 8), (Dout_sbuf, 0)] \<and>
   ossp_slave_process_command
       (test_env (test_msg 16 0xdeadbeef 0 0xFFFFFFFF 0 []) 100 0 0 0) (0::nat) =
     (- ENOMEM, 3, [Ev_recvmsg (test_msg 16 0xdeadbeef 0 0xFFFFFFFF 0 []),
                    Ev_ensure_sbuf_size Carg_sbuf 4 0,
                    Ev_ensure_sbuf_size Din_sbuf 4294967295 (- ENOMEM)])"
proof -
  let ?m = "test_msg 16 0xdeadbeef 0 0xFFFFFFFF 0 []"
  let ?X = "test_env ?m 4294967295 0 0 0"
  let ?Y = "test_env ?m 100 0 0 0"
  have rX: "recvmsg ?X (0::nat) = (?m, 1)" by (simp add: test_env_def)
  have vX: "validate ?X ?m = Inr (- 1)" by (simp add: run_defs)
  obtain w2 tr2 where eX: "ensure_sbufs ?X (sbuf_sizes ?X ?m) (1::nat) = (False, w2, tr2)"
    by (simp add: run_defs)
  have sz: "sbuf_sizes ?X ?m =
     [(Carg_sbuf, 4), (Din_sbuf, 4294967295), (Rarg_sbuf, 8), (Dout_sbuf, 0)]"
    by (simp add: run_defs)
  have rd: "0 \<le> fst (read_fill ?X (Buf Carg_sbuf) 4 w2)" by (simp add: test_env_def)
  note t = C3_sizes_not_bounded [OF rX vX eX]
  from t [THEN conjunct2, THEN conjunct2, THEN conjunct2, THEN conjunct2, THEN conjunct1]
  have c: "ensure_calls (snd (snd (ossp_slave_process_command ?X (0::nat)))) =
             sbuf_sizes ?X ?m"
    by simp
  from t [THEN conjunct2, THEN conjunct2, THEN conjunct2, THEN conjunct2, THEN conjunct2] rd
  have "\<exists>rc. Ev_read_fill (Buf Din_sbuf) (unat (din_size (m_cmd ?m))) rc
                \<in> set (snd (snd (ossp_slave_process_command ?X (0::nat))))"
    by (simp add: test_msg_def test_env_def test_tbl_def)
  then have d: "\<exists>rc. Ev_read_fill (Buf Din_sbuf) 4294967295 rc
                \<in> set (snd (snd (ossp_slave_process_command ?X (0::nat))))"
    by (simp add: test_msg_def)
  from c d sz
  have 1: "(\<exists>rc. Ev_read_fill (Buf Din_sbuf) 4294967295 rc
                \<in> set (snd (snd (ossp_slave_process_command ?X (0::nat))))) \<and>
           ensure_calls (snd (snd (ossp_slave_process_command ?X (0::nat)))) =
             [(Carg_sbuf, 4), (Din_sbuf, 4294967295), (Rarg_sbuf, 8), (Dout_sbuf, 0)]"
    by simp
  have rY: "recvmsg ?Y (0::nat) = (?m, 1)" by (simp add: test_env_def)
  have vY: "validate ?Y ?m = Inr (- 1)" by (simp add: run_defs)
  have eY: "ensure_sbufs ?Y (sbuf_sizes ?Y ?m) (1::nat) =
     (True, 3, [Ev_ensure_sbuf_size Carg_sbuf 4 0,
                Ev_ensure_sbuf_size Din_sbuf 4294967295 (- ENOMEM)])"
    by (simp add: run_defs)
  from C3_sizes_not_bounded [OF rY vY eY, THEN conjunct2, THEN conjunct2, THEN conjunct2,
      THEN conjunct1]
  have 2: "ossp_slave_process_command ?Y (0::nat) =
     (- ENOMEM, 3, [Ev_recvmsg ?m, Ev_ensure_sbuf_size Carg_sbuf 4 0,
                    Ev_ensure_sbuf_size Din_sbuf 4294967295 (- ENOMEM)])"
    by simp
  from 1 2 show ?thesis by simp
qed

subsection \<open>The error codes\<close>

text \<open>
  C2 as stated fails: a bad magic (a malformed frame), an out-of-range opcode (an unknown
  opcode) and a missing descriptor (a protocol violation) all come back as the same code,
  \<open>-EINVAL\<close>, so the categories do not map 1:1 to distinct codes.
\<close>

theorem C2_counterexample:
  "fst (ossp_slave_process_command
          (test_env (test_msg 16 0xbeefdead 0 0 0 []) 100 0 0 0) (0::nat)) = - EINVAL \<and>
   fst (ossp_slave_process_command
          (test_env (test_msg 16 0xdeadbeef 2 0 0 []) 100 0 0 0) (0::nat)) = - EINVAL \<and>
   fst (ossp_slave_process_command
          (test_env (test_msg 16 0xdeadbeef 1 0 0 []) 100 0 0 0) (0::nat)) = - EINVAL"
  by (simp add: run_defs)

text \<open>
  C2, amended. The errors are surfaced as negative codes, but not one code per category.
  A failed \<^verbatim>\<open>recvmsg\<close> returns \<open>-errno\<close>. A wrong header size, a bad magic, an out-of-range
  opcode, a control message of an unexpected type and a descriptor-presence mismatch all
  return \<open>-EINVAL\<close>, and an unregistered opcode puts \<open>-EINVAL\<close> in the result of the reply.
  A failure to grow a buffer returns \<open>-ENOMEM\<close>. A failed \<^verbatim>\<open>read_fill\<close> returns the negative
  value \<^verbatim>\<open>read_fill\<close> returned. A failed \<^verbatim>\<open>write_fill\<close> returns \<open>-EIO\<close>. The three codes
  \<open>-EINVAL\<close>, \<open>-ENOMEM\<close> and \<open>-EIO\<close> are distinct.
\<close>

theorem C2_error_codes:
  assumes "recvmsg E w = (m, w1)"
  shows
    "(m_ret m < 0 \<longrightarrow> fst (ossp_slave_process_command E w) = - m_errno m) \<and>
     (0 < m_ret m \<and> (m_ret m \<noteq> int sizeof_cmd \<or> magic (m_cmd m) \<noteq> OSSP_CMD_MAGIC E) \<longrightarrow>
        fst (ossp_slave_process_command E w) = - EINVAL) \<and>
     (0 < m_ret m \<and> OSSP_NR_OPCODES E \<le> unat (opcode (m_cmd m)) \<longrightarrow>
        fst (ossp_slave_process_command E w) = - EINVAL) \<and>
     (0 < m_ret m \<and>
      ((\<exists>c\<in>set (m_cmsgs m). cmsg_level c \<noteq> SOL_SOCKET \<or> cmsg_type c \<noteq> SCM_RIGHTS) \<or>
       (\<exists>fd. scan_cmsgs (m_cmsgs m) (- 1) = Some fd \<and>
             (0 \<le> fd) \<noteq> has_fd (ossp_arg_sizes E ! unat (opcode (m_cmd m))))) \<longrightarrow>
        fst (ossp_slave_process_command E w) = - EINVAL) \<and>
     (\<forall>fd w2 tr2. validate E m = Inr fd \<and>
         ensure_sbufs E (sbuf_sizes E m) w1 = (True, w2, tr2) \<longrightarrow>
         fst (ossp_slave_process_command E w) = - ENOMEM) \<and>
     (\<forall>fd w2 tr2 rv w3 tr3. validate E m = Inr fd \<and>
         ensure_sbufs E (sbuf_sizes E m) w1 = (False, w2, tr2) \<and>
         read_payload E (carg_size (ossp_arg_sizes E ! unat (opcode (m_cmd m))))
           (unat (din_size (m_cmd m))) w2 = Inl (rv, w3, tr3) \<longrightarrow>
         fst (ossp_slave_process_command E w) = rv \<and> rv < 0) \<and>
     (\<forall>L w2 tr. prepare E w = Inr (L, w2, tr) \<and>
         action_fn_tbl E (unat (opcode (v_cmd L))) = None \<longrightarrow>
         replies (snd (snd (ossp_slave_process_command E w))) =
           [\<lparr>r_magic = OSSP_REPLY_MAGIC E, r_result = - EINVAL, r_dout_size = 0\<rparr>]) \<and>
     (\<forall>L w2 tr. prepare E w = Inr (L, w2, tr) \<and>
         (\<exists>rc\<in>set (write_results (snd (snd (ossp_slave_process_command E w)))). rc < 0) \<longrightarrow>
         fst (ossp_slave_process_command E w) = - EIO) \<and>
     - EINVAL \<noteq> - ENOMEM \<and> - EINVAL \<noteq> - EIO \<and> - ENOMEM \<noteq> - EIO"
proof -
  let ?rv = "fst (ossp_slave_process_command E w)"
  have 1: "m_ret m < 0 \<longrightarrow> ?rv = - m_errno m"
  proof
    assume "m_ret m < 0"
    then have "validate E m = Inl (- m_errno m)" by (simp add: validate_def)
    from process_validate_Inl [OF assms this] show "?rv = - m_errno m" by simp
  qed
  have 2: "0 < m_ret m \<and> (m_ret m \<noteq> int sizeof_cmd \<or> magic (m_cmd m) \<noteq> OSSP_CMD_MAGIC E) \<longrightarrow>
        ?rv = - EINVAL"
  proof
    assume h: "0 < m_ret m \<and> (m_ret m \<noteq> int sizeof_cmd \<or> magic (m_cmd m) \<noteq> OSSP_CMD_MAGIC E)"
    then have "validate E m = Inl (- EINVAL)" by (intro validate_fails) auto
    from process_validate_Inl [OF assms this] show "?rv = - EINVAL" by simp
  qed
  have 3: "0 < m_ret m \<and> OSSP_NR_OPCODES E \<le> unat (opcode (m_cmd m)) \<longrightarrow> ?rv = - EINVAL"
  proof
    assume h: "0 < m_ret m \<and> OSSP_NR_OPCODES E \<le> unat (opcode (m_cmd m))"
    then have "validate E m = Inl (- EINVAL)" by (intro validate_fails) auto
    from process_validate_Inl [OF assms this] show "?rv = - EINVAL" by simp
  qed
  have 4: "0 < m_ret m \<and>
      ((\<exists>c\<in>set (m_cmsgs m). cmsg_level c \<noteq> SOL_SOCKET \<or> cmsg_type c \<noteq> SCM_RIGHTS) \<or>
       (\<exists>fd. scan_cmsgs (m_cmsgs m) (- 1) = Some fd \<and>
             (0 \<le> fd) \<noteq> has_fd (ossp_arg_sizes E ! unat (opcode (m_cmd m))))) \<longrightarrow>
        ?rv = - EINVAL"
  proof
    assume h: "0 < m_ret m \<and>
      ((\<exists>c\<in>set (m_cmsgs m). cmsg_level c \<noteq> SOL_SOCKET \<or> cmsg_type c \<noteq> SCM_RIGHTS) \<or>
       (\<exists>fd. scan_cmsgs (m_cmsgs m) (- 1) = Some fd \<and>
             (0 \<le> fd) \<noteq> has_fd (ossp_arg_sizes E ! unat (opcode (m_cmd m)))))"
    then have "scan_cmsgs (m_cmsgs m) (- 1) = None \<or>
       (\<exists>fd. scan_cmsgs (m_cmsgs m) (- 1) = Some fd \<and>
             (0 \<le> fd) \<noteq> has_fd (ossp_arg_sizes E ! unat (opcode (m_cmd m))))"
      by (simp only: scan_cmsgs_None_iff)
    with h have "validate E m = Inl (- EINVAL)" by (intro validate_fails) auto
    from process_validate_Inl [OF assms this] show "?rv = - EINVAL" by simp
  qed
  have 5: "\<forall>fd w2 tr2. validate E m = Inr fd \<and>
         ensure_sbufs E (sbuf_sizes E m) w1 = (True, w2, tr2) \<longrightarrow> ?rv = - ENOMEM"
  proof (intro allI impI)
    fix fd w2 tr2
    assume "validate E m = Inr fd \<and> ensure_sbufs E (sbuf_sizes E m) w1 = (True, w2, tr2)"
    then have "ossp_slave_process_command E w = (- ENOMEM, w2, Ev_recvmsg m # tr2)"
      using process_ensure_fails [OF assms] by blast
    then show "?rv = - ENOMEM" by simp
  qed
  have 6: "\<forall>fd w2 tr2 rv w3 tr3. validate E m = Inr fd \<and>
         ensure_sbufs E (sbuf_sizes E m) w1 = (False, w2, tr2) \<and>
         read_payload E (carg_size (ossp_arg_sizes E ! unat (opcode (m_cmd m))))
           (unat (din_size (m_cmd m))) w2 = Inl (rv, w3, tr3) \<longrightarrow>
         ?rv = rv \<and> rv < 0"
  proof (intro allI impI)
    fix fd w2 tr2 rv w3 tr3
    assume h: "validate E m = Inr fd \<and>
         ensure_sbufs E (sbuf_sizes E m) w1 = (False, w2, tr2) \<and>
         read_payload E (carg_size (ossp_arg_sizes E ! unat (opcode (m_cmd m))))
           (unat (din_size (m_cmd m))) w2 = Inl (rv, w3, tr3)"
    then have v: "validate E m = Inr fd"
      and e: "ensure_sbufs E (sbuf_sizes E m) w1 = (False, w2, tr2)"
      and rp: "read_payload E (carg_size (ossp_arg_sizes E ! unat (opcode (m_cmd m))))
           (unat (din_size (m_cmd m))) w2 = Inl (rv, w3, tr3)"
      by simp_all
    from prepare_validate_Inr [OF assms v e] rp
    have "ossp_slave_process_command E w = (rv, w3, Ev_recvmsg m # tr2 @ tr3)"
      by (simp add: ossp_slave_process_command_def)
    with read_payload_Inl [OF rp] show "?rv = rv \<and> rv < 0" by simp
  qed
  have 7: "\<forall>L w2 tr. prepare E w = Inr (L, w2, tr) \<and>
         action_fn_tbl E (unat (opcode (v_cmd L))) = None \<longrightarrow>
         replies (snd (snd (ossp_slave_process_command E w))) =
           [\<lparr>r_magic = OSSP_REPLY_MAGIC E, r_result = - EINVAL, r_dout_size = 0\<rparr>]"
  proof (intro allI impI)
    fix L w2 tr
    assume h: "prepare E w = Inr (L, w2, tr) \<and>
         action_fn_tbl E (unat (opcode (v_cmd L))) = None"
    then have p: "prepare E w = Inr (L, w2, tr)"
      and i: "invoke E L w2 = (- EINVAL, v_dout_size L, w2, [])"
      by (simp_all add: invoke_unregistered)
    from reply_stage_summary [OF p i]
    show "replies (snd (snd (ossp_slave_process_command E w))) =
           [\<lparr>r_magic = OSSP_REPLY_MAGIC E, r_result = - EINVAL, r_dout_size = 0\<rparr>]"
      by (simp add: mk_reply_def int32_of_def EINVAL_def)
  qed
  have 8: "\<forall>L w2 tr. prepare E w = Inr (L, w2, tr) \<and>
         (\<exists>rc\<in>set (write_results (snd (snd (ossp_slave_process_command E w)))). rc < 0) \<longrightarrow>
         ?rv = - EIO"
  proof (intro allI impI)
    fix L w2 tr
    assume h: "prepare E w = Inr (L, w2, tr) \<and>
         (\<exists>rc\<in>set (write_results (snd (snd (ossp_slave_process_command E w)))). rc < 0)"
    then have p: "prepare E w = Inr (L, w2, tr)" by simp
    obtain ret dsz w3 tr2 where i: "invoke E L w2 = (ret, dsz, w3, tr2)"
      by (cases "invoke E L w2")
    from reply_stage_summary [OF p i] h show "?rv = - EIO" by simp
  qed
  have 9: "- EINVAL \<noteq> - ENOMEM \<and> - EINVAL \<noteq> - EIO \<and> - ENOMEM \<noteq> - EIO"
    by (simp add: EINVAL_def ENOMEM_def EIO_def)
  from 1 2 3 4 5 6 7 8 9 show ?thesis by (intro conjI) simp_all
qed

theorem C2_error_codes_witness:
  "fst (ossp_slave_process_command
          (test_env ((test_msg (- 1) 0 0 0 0 [])\<lparr>m_errno := 104\<rparr>) 100 0 0 0) (0::nat)) = - 104 \<and>
   fst (ossp_slave_process_command
          (test_env (test_msg 16 0xbeefdead 0 0 0 []) 100 0 0 0) (0::nat)) = - EINVAL \<and>
   fst (ossp_slave_process_command
          (test_env (test_msg 16 0xdeadbeef 0 0 0 []) 2 0 0 0) (0::nat)) = - ENOMEM \<and>
   fst (ossp_slave_process_command
          (test_env (test_msg 16 0xdeadbeef 0 0 0 []) 100 (- 1) 0 0) (0::nat)) = - EIO \<and>
   replies (snd (snd (ossp_slave_process_command
          ((test_env (test_msg 16 0xdeadbeef 0 0 4 []) 100 0 0 0)
             \<lparr>action_fn_tbl := \<lambda>i. None\<rparr>) (0::nat)))) =
     [\<lparr>r_magic = 0xbeefdead, r_result = - EINVAL, r_dout_size = 0\<rparr>]"
proof -
  let ?ma = "(test_msg (- 1) 0 0 0 0 [])\<lparr>m_errno := 104\<rparr>"
  let ?A = "test_env ?ma 100 0 0 0"
  have rA: "recvmsg ?A (0::nat) = (?ma, 1)" by (simp add: test_env_def)
  from C2_error_codes [OF rA, THEN conjunct1]
  have a: "fst (ossp_slave_process_command ?A (0::nat)) = - 104"
    by (simp add: test_msg_def)
  let ?mb = "test_msg 16 0xbeefdead 0 0 0 []"
  let ?B = "test_env ?mb 100 0 0 0"
  have rB: "recvmsg ?B (0::nat) = (?mb, 1)" by (simp add: test_env_def)
  from C2_error_codes [OF rB, THEN conjunct2, THEN conjunct1]
  have b: "fst (ossp_slave_process_command ?B (0::nat)) = - EINVAL"
    by (simp add: test_msg_def test_env_def)
  let ?mc = "test_msg 16 0xdeadbeef 0 0 0 []"
  let ?C = "test_env ?mc 2 0 0 0"
  have rC: "recvmsg ?C (0::nat) = (?mc, 1)" by (simp add: test_env_def)
  have vC: "validate ?C ?mc = Inr (- 1)" by (simp add: run_defs)
  have eC: "ensure_sbufs ?C (sbuf_sizes ?C ?mc) (1::nat) =
     (True, 2, [Ev_ensure_sbuf_size Carg_sbuf 4 (- ENOMEM)])"
    by (simp add: run_defs)
  from C2_error_codes [OF rC, THEN conjunct2, THEN conjunct2, THEN conjunct2, THEN conjunct2,
      THEN conjunct1] vC eC
  have c: "fst (ossp_slave_process_command ?C (0::nat)) = - ENOMEM" by blast
  let ?D = "test_env ?mc 100 (- 1) 0 0"
  have rD: "recvmsg ?D (0::nat) = (?mc, 1)" by (simp add: test_env_def)
  obtain L w2 tr where pD: "prepare ?D (0::nat) = Inr (L, w2, tr)" by (simp add: run_defs)
  have wD: "write_results (snd (snd (ossp_slave_process_command ?D (0::nat)))) = [- 1]"
    by (simp add: run_defs)
  from C2_error_codes [OF rD, THEN conjunct2, THEN conjunct2, THEN conjunct2, THEN conjunct2,
      THEN conjunct2, THEN conjunct2, THEN conjunct2, THEN conjunct1] pD wD
  have d: "fst (ossp_slave_process_command ?D (0::nat)) = - EIO" by auto
  let ?me = "test_msg 16 0xdeadbeef 0 0 4 []"
  let ?E = "(test_env ?me 100 0 0 0)\<lparr>action_fn_tbl := \<lambda>i. None\<rparr>"
  have rE: "recvmsg ?E (0::nat) = (?me, 1)" by (simp add: test_env_def)
  obtain L' w2' tr' where pE: "prepare ?E (0::nat) = Inr (L', w2', tr')"
    by (simp add: run_defs)
  have fE: "action_fn_tbl ?E (unat (opcode (v_cmd L'))) = None" by (simp add: test_env_def)
  from C2_error_codes [OF rE, THEN conjunct2, THEN conjunct2, THEN conjunct2, THEN conjunct2,
      THEN conjunct2, THEN conjunct2, THEN conjunct1] pE fE
  have "replies (snd (snd (ossp_slave_process_command ?E (0::nat)))) =
     [\<lparr>r_magic = OSSP_REPLY_MAGIC ?E, r_result = - EINVAL, r_dout_size = 0\<rparr>]"
    by blast
  then have e: "replies (snd (snd (ossp_slave_process_command ?E (0::nat)))) =
     [\<lparr>r_magic = 0xbeefdead, r_result = - EINVAL, r_dout_size = 0\<rparr>]"
    by (simp add: test_env_def)
  from a b c d e show ?thesis by (intro conjI)
qed

end
